theory Spec2Isabelle
  imports Main
begin

section \<open>Strings of the extension\<close>

text \<open>
  A TypeScript string is a sequence of UTF-16 code units, and \<open>length\<close>, \<open>substring\<close>,
  \<open>includes\<close> and the regular expressions of \<open>extension.ts\<close> (none has the \<open>u\<close> flag)
  all work on code units. A code unit is modelled as a natural number (it is below
  65536, and nothing here depends on that bound) and a string as the list of its code
  units; \<open>str\<close> turns an ASCII literal of the source into that list. The code units
  that the definitions name: 10 is LF, 13 is CR, 35 is \<open>#\<close>, 39 is the single quote,
  46 is the dot, 48 to 57 are the digits, 65 to 90 are \<open>A\<close> to \<open>Z\<close> (82 is \<open>R\<close>),
  95 is the underscore and 97 to 122 are \<open>a\<close> to \<open>z\<close> (114 is \<open>r\<close>).
\<close>

type_synonym jstring = "nat list"

definition str :: "string \<Rightarrow> jstring" where
  "str s = map of_char s"

text \<open>
  The character classes of the regular expressions: \<open>\d\<close>, \<open>\w\<close>, \<open>\s\<close>, and the line
  terminators that \<open>.\<close> does not match. White space is what \<open>\s\<close> and \<open>trim\<close> take for
  it: TAB, LF, VT, FF, CR, the blank, U+00A0, U+1680, U+2000 to U+200A, U+2028, U+2029,
  U+202F, U+205F, U+3000 and U+FEFF.
\<close>

definition isDigit :: "nat \<Rightarrow> bool" where
  "isDigit c = (48 \<le> c \<and> c \<le> 57)"

definition isLetter :: "nat \<Rightarrow> bool" where
  "isLetter c = ((65 \<le> c \<and> c \<le> 90) \<or> (97 \<le> c \<and> c \<le> 122))"

definition isWord :: "nat \<Rightarrow> bool" where
  "isWord c = (isLetter c \<or> isDigit c \<or> c = 95)"

definition isSpace :: "nat \<Rightarrow> bool" where
  "isSpace c = ((9 \<le> c \<and> c \<le> 13) \<or> c = 32 \<or> c = 160 \<or> c = 5760
      \<or> (8192 \<le> c \<and> c \<le> 8202) \<or> c = 8232 \<or> c = 8233 \<or> c = 8239
      \<or> c = 8287 \<or> c = 12288 \<or> c = 65279)"

definition isLineTerminator :: "nat \<Rightarrow> bool" where
  "isLineTerminator c = (c = 10 \<or> c = 13 \<or> c = 8232 \<or> c = 8233)"

text \<open>
  \<open>toUpperCase\<close> and \<open>toLowerCase\<close>. On a string of ASCII code units they map the
  letters \<open>a\<close>-\<open>z\<close> and \<open>A\<close>-\<open>Z\<close> onto each other and leave everything else. On a
  string with a code unit beyond ASCII they follow the Unicode case tables of the
  JavaScript engine, which are no part of the repository: that mapping is the
  parameter \<open>uc\<close> (\<open>lc\<close>) of the model.
\<close>

definition asciiUpper :: "nat \<Rightarrow> nat" where
  "asciiUpper c = (if 97 \<le> c \<and> c \<le> 122 then c - 32 else c)"

definition asciiLower :: "nat \<Rightarrow> nat" where
  "asciiLower c = (if 65 \<le> c \<and> c \<le> 90 then c + 32 else c)"

definition toUpperCase :: "(jstring \<Rightarrow> jstring) \<Rightarrow> jstring \<Rightarrow> jstring" where
  "toUpperCase uc s = (if list_all (\<lambda>c. c < 128) s then map asciiUpper s else uc s)"

definition toLowerCase :: "(jstring \<Rightarrow> jstring) \<Rightarrow> jstring \<Rightarrow> jstring" where
  "toLowerCase lc s = (if list_all (\<lambda>c. c < 128) s then map asciiLower s else lc s)"

text \<open>\<open>s.startsWith(k)\<close> and \<open>s.includes(k)\<close>.\<close>

definition startsWith :: "jstring \<Rightarrow> jstring \<Rightarrow> bool" where
  "startsWith s k = (take (length k) s = k)"

primrec includes_js :: "jstring \<Rightarrow> jstring \<Rightarrow> bool" where
  "includes_js [] k = (k = [])"
| "includes_js (c # cs) k = (startsWith (c # cs) k \<or> includes_js cs k)"

text \<open>A number in a template literal: its decimal digits.\<close>

fun showNat :: "nat \<Rightarrow> jstring" where
  "showNat n = (if n < 10 then [48 + n] else showNat (n div 10) @ [48 + n mod 10])"

declare showNat.simps [simp del]

section \<open>The instruction table\<close>

datatype kind = Reg | Num | Label | String

definition kindName :: "kind \<Rightarrow> jstring" where
  "kindName k = (case k of Reg \<Rightarrow> str ''Reg'' | Num \<Rightarrow> str ''Num''
     | Label \<Rightarrow> str ''Label'' | String \<Rightarrow> str ''String'')"

text \<open>
  The object literal \<open>INSTRUCTIONS\<close>, as the list of its entries in source order
  (\<open>Object.keys\<close> returns the keys in this order); \<open>lookupInstruction\<close> is the
  property read \<open>INSTRUCTIONS[instruction]\<close>, \<open>None\<close> for \<open>undefined\<close>. The
  properties inherited from \<open>Object.prototype\<close> all have a lower-case ASCII letter in
  their names, which no result of \<open>toUpperCase\<close> has, so only the own keys are read.
\<close>

definition INSTRUCTIONS :: "(jstring \<times> kind list list) list" where
  "INSTRUCTIONS =
   [(str ''MOV'', [[Reg, Num], [Reg]]),
    (str ''LOD'', [[Num], [Reg]]),
    (str ''STR'', [[Reg, Num], [Num]]),
    (str ''PSH'', [[Reg, Num]]),
    (str ''POP'', [[Reg]]),
    (str ''ADD'', [[Reg, Num], [Reg, Num], [Reg]]),
    (str ''SUB'', [[Reg, Num], [Reg, Num], [Reg]]),
    (str ''MOD'', [[Reg, Num], [Reg, Num], [Reg]]),
    (str ''XOR'', [[Reg, Num], [Reg, Num], [Reg]]),
    (str ''AND'', [[Reg, Num], [Reg, Num], [Reg]]),
    (str ''NOT'', [[Reg, Num], [Reg]]),
    (str ''OR'', [[Reg, Num], [Reg, Num], [Reg]]),
    (str ''JMP'', [[Num, Label]]),
    (str ''CAL'', [[Num, Label]]),
    (str ''RET'', []),
    (str ''BRZ'', [[Reg, Num], [Num, Label]]),
    (str ''BNZ'', [[Reg, Num], [Num, Label]]),
    (str ''IN'', [[Num], [Reg]]),
    (str ''OUT'', [[Num], [Reg, Num, String]]),
    (str ''GIP'', [[Reg]]),
    (str ''HLT'', []),
    (str ''BRG'', [[Reg, Num], [Reg, Num], [Label, Num]]),
    (str ''BNG'', [[Reg, Num], [Reg, Num], [Label, Num]]),
    (str ''BRL'', [[Reg, Num], [Reg, Num], [Label, Num]]),
    (str ''BNL'', [[Reg, Num], [Reg, Num], [Label, Num]])]"

definition lookupInstruction :: "jstring \<Rightarrow> kind list list option" where
  "lookupInstruction instruction = map_of INSTRUCTIONS instruction"

section \<open>The objects of the editor\<close>

datatype position = Position nat nat

datatype vrange = RangeV position position

datatype DiagnosticSeverity = Error | Warning | Information | Hint

record diagnostic =
  drange :: vrange
  message :: jstring
  severity :: DiagnosticSeverity
  code :: "jstring option"

text \<open>\<open>new vscode.Diagnostic(range, message, severity)\<close>: the code is unset.\<close>

definition newDiagnostic :: "vrange \<Rightarrow> jstring \<Rightarrow> DiagnosticSeverity \<Rightarrow> diagnostic" where
  "newDiagnostic r m s = \<lparr>drange = r, message = m, severity = s, code = None\<rparr>"

text \<open>
  A text document of the editor: what \<open>updateDiagnostics\<close> reads of it. \<open>positionAt\<close>
  is the editor's conversion of a character offset into a line and a column.
\<close>

record document =
  languageId :: jstring
  uri :: jstring
  getText :: jstring
  positionAt :: "nat \<Rightarrow> position"


record completionItem =
  label :: jstring
  ckind :: nat
  insertText :: "jstring option"
  detail :: "jstring option"

section \<open>Check A: the required meta keys\<close>

definition requiredKeys :: "jstring list" where
  "requiredKeys = [str ''meta.name'', str ''meta.version'', str ''meta.author'']"

definition missingKey :: "jstring \<Rightarrow> diagnostic" where
  "missingKey key =
     (newDiagnostic (RangeV (Position 0 0) (Position 0 0)) (str ''Missing key: '' @ key)
        Information) \<lparr>code := Some (str ''missing_'' @ key)\<rparr>"

text \<open>The loop over \<open>requiredKeys\<close>; the result lists what the loop pushes, in order.\<close>

fun keyLoop :: "jstring \<Rightarrow> jstring list \<Rightarrow> diagnostic list" where
  "keyLoop text [] = []"
| "keyLoop text (key # keys) =
     (if \<not> includes_js text key then [missingKey key] else []) @ keyLoop text keys"

section \<open>Check B: the register scan\<close>

text \<open>
  The regular expression \<open>/\b(r\d{1,2})\b/gi\<close>. \<open>wordBoundary text i\<close> is the assertion
  \<open>\b\<close> at offset \<open>i\<close>: exactly one of the code units before and at \<open>i\<close> is a word
  character (there is none before offset 0 and none at the end).
  \<open>matchRegisterAt text i\<close> runs the pattern at offset \<open>i\<close> and returns the length of
  the match: the greedy \<open>\d{1,2}\<close> takes two digits first and falls back to one.
\<close>

definition wordAt :: "jstring \<Rightarrow> nat \<Rightarrow> bool" where
  "wordAt text i = (i < length text \<and> isWord (text ! i))"

definition digitAt :: "jstring \<Rightarrow> nat \<Rightarrow> bool" where
  "digitAt text i = (i < length text \<and> isDigit (text ! i))"

definition wordBoundary :: "jstring \<Rightarrow> nat \<Rightarrow> bool" where
  "wordBoundary text i = ((0 < i \<and> wordAt text (i - 1)) \<noteq> wordAt text i)"

definition matchRegisterAt :: "jstring \<Rightarrow> nat \<Rightarrow> nat option" where
  "matchRegisterAt text i =
     (if wordBoundary text i \<and> i < length text \<and> (text ! i = 114 \<or> text ! i = 82)
         \<and> digitAt text (i + 1)
      then if digitAt text (i + 2) \<and> wordBoundary text (i + 3) then Some 3
           else if wordBoundary text (i + 2) then Some 2
           else None
      else None)"

text \<open>
  \<open>registerRegex.exec(text)\<close> with \<open>lastIndex = i\<close>: the first offset from \<open>i\<close> on where
  the pattern matches, with the length of the match; \<open>None\<close> is \<open>null\<close>.
\<close>

function execRegister :: "jstring \<Rightarrow> nat \<Rightarrow> (nat \<times> nat) option" where
  "execRegister text i =
     (if length text < i then None
      else case matchRegisterAt text i of
             Some n \<Rightarrow> Some (i, n)
           | None \<Rightarrow> execRegister text (i + 1))"
  by pat_completeness auto
termination
  by (relation "measure (\<lambda>(text, i). Suc (length text) - i)") auto

declare execRegister.simps [simp del]

text \<open>
  \<open>parseInt\<close> on the digits of a match: the value of the leading decimal digits,
  \<open>None\<close> (NaN) when there is none. The argument here is one or two digits, so
  white space, signs and the prefix \<open>0x\<close>, which \<open>parseInt\<close> also reads, never occur.
\<close>

definition parseInt :: "jstring \<Rightarrow> int option" where
  "parseInt s =
     (let ds = takeWhile isDigit s
      in if ds = [] then None else Some (foldl (\<lambda>a c. 10 * a + (int c - 48)) 0 ds))"

definition invalidRegister :: "document \<Rightarrow> nat \<Rightarrow> jstring \<Rightarrow> diagnostic" where
  "invalidRegister doc index m1 =
     newDiagnostic (RangeV (positionAt doc index) (positionAt doc (index + length m1)))
       (str ''Invalid register: '' @ m1) Error"

text \<open>The comparison \<open>regNum < 0 || regNum > 15\<close>; both sides are false on NaN.\<close>

definition outOfRange :: "int option \<Rightarrow> bool" where
  "outOfRange regNum = (case regNum of None \<Rightarrow> False | Some v \<Rightarrow> v < 0 \<or> 15 < v)"

lemma execRegister_bounds:
  "execRegister s i = Some (index, n) \<Longrightarrow>
     i \<le> index \<and> index < length s \<and> matchRegisterAt s index = Some n"
proof (induction s i rule: execRegister.induct)
  case (1 s i)
  show ?case
  proof (cases "matchRegisterAt s i")
    case None
    with 1 show ?thesis
      by (simp add: execRegister.simps [of s i] split: if_splits)
  next
    case (Some m)
    with 1 show ?thesis
      by (auto simp: execRegister.simps [of s i] matchRegisterAt_def split: if_splits)
  qed
qed

lemma matchRegisterAt_length:
  "matchRegisterAt text i = Some n \<Longrightarrow> (n = 2 \<or> n = 3) \<and> i + n \<le> length text"
  by (auto simp: matchRegisterAt_def digitAt_def wordBoundary_def wordAt_def
      split: if_splits)

text \<open>The \<open>while\<close> loop over the matches, from \<open>lastIndex\<close> on.\<close>

function registerLoop :: "document \<Rightarrow> nat \<Rightarrow> diagnostic list" where
  "registerLoop doc lastIndex =
     (case execRegister (getText doc) lastIndex of
        None \<Rightarrow> []
      | Some (index, n) \<Rightarrow>
          (let m1 = take n (drop index (getText doc));
               regNum = parseInt (drop 1 m1)
           in (if outOfRange regNum then [invalidRegister doc index m1] else [])
              @ registerLoop doc (index + n)))"
  by pat_completeness auto
termination
proof (relation "measure (\<lambda>(doc, i). Suc (length (getText doc)) - i)", goal_cases)
  case 1
  show ?case by simp
next
  case (2 doc lastIndex x2 index n)
  then have "execRegister (getText doc) lastIndex = Some (index, n)" by simp
  from execRegister_bounds [OF this] matchRegisterAt_length [of "getText doc" index n]
  show ?case by auto
qed

declare registerLoop.simps [simp del]

section \<open>Check C: the lines\<close>

text \<open>
  \<open>text.split(/\r?\n/)\<close>: the pieces between the line breaks LF and CR LF. A CR with
  no LF after it is no line break and stays in its piece.
\<close>

definition consHead :: "nat \<Rightarrow> jstring list \<Rightarrow> jstring list" where
  "consHead c ls = (case ls of [] \<Rightarrow> [[c]] | l # rest \<Rightarrow> (c # l) # rest)"

fun splitLines :: "jstring \<Rightarrow> jstring list" where
  "splitLines [] = [[]]"
| "splitLines [c] = (if c = 10 then [[], []] else [[c]])"
| "splitLines (c # d # cs) =
     (if c = 10 then [] # splitLines (d # cs)
      else if c = 13 \<and> d = 10 then [] # splitLines cs
      else consHead c (splitLines (d # cs)))"

text \<open>\<open>trim()\<close> removes the white space and line terminators at both ends.\<close>

definition trim :: "jstring \<Rightarrow> jstring" where
  "trim s = rev (dropWhile isSpace (rev (dropWhile isSpace s)))"

text \<open>
  \<open>line.match(/'[^']*'|\S+/g)\<close>: all matches from left to right. At a quote with a
  later quote the first alternative matches up to the next quote; otherwise, at a code
  unit that is no white space, the second alternative matches the run of such code
  units; at white space nothing matches and the search moves on. \<open>matchTokens\<close> is
  \<open>null\<close> (here \<open>None\<close>) when there is no match.
\<close>

function tokens :: "jstring \<Rightarrow> jstring list" where
  "tokens [] = []"
| "tokens (c # cs) =
     (if c = 39 \<and> 39 \<in> set cs
      then (c # takeWhile (\<lambda>x. x \<noteq> 39) cs @ [39])
             # tokens (drop 1 (dropWhile (\<lambda>x. x \<noteq> 39) cs))
      else if \<not> isSpace c
      then (c # takeWhile (\<lambda>x. \<not> isSpace x) cs) # tokens (dropWhile (\<lambda>x. \<not> isSpace x) cs)
      else tokens cs)"
  by pat_completeness auto
termination
proof (relation "measure length", goal_cases)
  case 1
  show ?case by simp
next
  case (2 c cs)
  have "length (dropWhile (\<lambda>x. x \<noteq> 39) cs) \<le> length cs"
    by (rule length_dropWhile_le)
  then show ?case by simp
next
  case (3 c cs)
  have "length (dropWhile (\<lambda>x. \<not> isSpace x) cs) \<le> length cs"
    by (rule length_dropWhile_le)
  then show ?case by simp
next
  case (4 c cs)
  show ?case by simp
qed

declare tokens.simps [simp del]

definition matchTokens :: "jstring \<Rightarrow> jstring list option" where
  "matchTokens line = (case tokens line of [] \<Rightarrow> None | p # ps \<Rightarrow> Some (p # ps))"

text \<open>
  The four tests of an operand: \<open>/^r\d{1,2}$/i\<close>, \<open>/^\d+$/\<close>,
  \<open>/^(\.|[A-Za-z_])[\w.]*$/\<close> and \<open>/^'.*'$/\<close> (where \<open>.\<close> matches no line terminator).
\<close>

definition testReg :: "jstring \<Rightarrow> bool" where
  "testReg a = (case a of [] \<Rightarrow> False
     | c # ds \<Rightarrow> (c = 114 \<or> c = 82) \<and> (length ds = 1 \<or> length ds = 2) \<and> list_all isDigit ds)"

definition testNum :: "jstring \<Rightarrow> bool" where
  "testNum a = (a \<noteq> [] \<and> list_all isDigit a)"

definition testLabel :: "jstring \<Rightarrow> bool" where
  "testLabel a = (case a of [] \<Rightarrow> False
     | c # cs \<Rightarrow> (c = 46 \<or> isLetter c \<or> c = 95) \<and> list_all (\<lambda>x. isWord x \<or> x = 46) cs)"

definition testString :: "jstring \<Rightarrow> bool" where
  "testString a = (case a of [] \<Rightarrow> False
     | c # cs \<Rightarrow> c = 39 \<and> cs \<noteq> [] \<and> last cs = 39
         \<and> list_all (\<lambda>x. \<not> isLineTerminator x) (butlast cs))"

definition kindTest :: "kind \<Rightarrow> jstring \<Rightarrow> bool" where
  "kindTest k actual = (case k of Reg \<Rightarrow> testReg actual | Num \<Rightarrow> testNum actual
     | Label \<Rightarrow> testLabel actual | String \<Rightarrow> testString actual)"

text \<open>The loop over \<open>expectedKinds\<close>, with the variable \<open>valid\<close>.\<close>

fun kindLoop :: "kind list \<Rightarrow> jstring \<Rightarrow> bool \<Rightarrow> bool" where
  "kindLoop [] actual valid = valid"
| "kindLoop (k # ks) actual valid = kindLoop ks actual (if kindTest k actual then True else valid)"

text \<open>\<open>expectedKinds.join(" or ")\<close>.\<close>

fun joinOr :: "jstring list \<Rightarrow> jstring" where
  "joinOr [] = []"
| "joinOr [x] = x"
| "joinOr (x # y # ys) = x @ str '' or '' @ joinOr (y # ys)"

definition invalidArgument :: "nat \<Rightarrow> jstring \<Rightarrow> jstring \<Rightarrow> kind list \<Rightarrow> jstring \<Rightarrow> diagnostic" where
  "invalidArgument lineNum line instruction expectedKinds actual =
     newDiagnostic (RangeV (Position lineNum 0) (Position lineNum (length line)))
       (str ''Invalid argument '' @ [39] @ actual @ [39] @ str '' for '' @ instruction
          @ str ''. Expected: '' @ joinOr (map kindName expectedKinds))
       Error"

text \<open>One round of the loop over the operand slots.\<close>

definition checkArg :: "nat \<Rightarrow> jstring \<Rightarrow> jstring \<Rightarrow> kind list \<Rightarrow> jstring \<Rightarrow> diagnostic list" where
  "checkArg lineNum line instruction expectedKinds actual =
     (if \<not> kindLoop expectedKinds actual False
      then [invalidArgument lineNum line instruction expectedKinds actual] else [])"

text \<open>
  The loop \<open>for (let i = 0; i < signature.length; i++)\<close>. It runs only when \<open>args\<close> and
  \<open>signature\<close> have the same length, so \<open>args[i]\<close> is always in range.
\<close>

definition argLoop :: "nat \<Rightarrow> jstring \<Rightarrow> jstring \<Rightarrow> kind list list \<Rightarrow> jstring list \<Rightarrow> diagnostic list" where
  "argLoop lineNum line instruction signature args =
     concat (map (\<lambda>i. checkArg lineNum line instruction (signature ! i) (args ! i))
       [0 ..< length signature])"

definition invalidInstruction :: "nat \<Rightarrow> jstring \<Rightarrow> jstring \<Rightarrow> diagnostic" where
  "invalidInstruction lineNum firstPart instruction =
     newDiagnostic (RangeV (Position lineNum 0) (Position lineNum (length firstPart)))
       (str ''Invalid instruction: '' @ instruction) Error"

definition wrongArity :: "nat \<Rightarrow> jstring \<Rightarrow> jstring \<Rightarrow> nat \<Rightarrow> nat \<Rightarrow> diagnostic" where
  "wrongArity lineNum line instruction expected got =
     newDiagnostic (RangeV (Position lineNum 0) (Position lineNum (length line)))
       (str ''Instruction '' @ instruction @ str '' expects '' @ showNat expected
          @ str '' argument(s), got '' @ showNat got)
       Error"

definition metaKeys :: "jstring list" where
  "metaKeys = [str ''meta.name'', str ''meta.version'', str ''meta.author'']"

text \<open>The body of the loop over the lines, for line number \<open>lineNum\<close> with text \<open>raw\<close>.\<close>

definition checkLine :: "(jstring \<Rightarrow> jstring) \<Rightarrow> nat \<Rightarrow> jstring \<Rightarrow> diagnostic list" where
  "checkLine uc lineNum raw =
     (let line = trim raw in
      if line = [] then []
      else case matchTokens line of
        None \<Rightarrow> []
      | Some parts \<Rightarrow>
         (case parts of
            [] \<Rightarrow> []
          | firstPart # args \<Rightarrow>
             (let instruction = toUpperCase uc firstPart in
              case lookupInstruction instruction of
                None \<Rightarrow>
                  if startsWith firstPart (str ''#'') then []
                  else if firstPart \<in> set metaKeys then []
                  else if startsWith firstPart (str ''.'') then []
                  else [invalidInstruction lineNum firstPart instruction]
              | Some signature \<Rightarrow>
                  if length args \<noteq> length signature
                  then [wrongArity lineNum line instruction (length signature) (length args)]
                  else argLoop lineNum line instruction signature args)))"

definition lineLoop :: "(jstring \<Rightarrow> jstring) \<Rightarrow> jstring list \<Rightarrow> diagnostic list" where
  "lineLoop uc lines =
     concat (map (\<lambda>lineNum. checkLine uc lineNum (lines ! lineNum)) [0 ..< length lines])"

section \<open>The validation of a document\<close>

text \<open>
  \<open>diagnose\<close> is the list \<open>diagnostics\<close> at the end of \<open>updateDiagnostics\<close>, and
  \<open>updateDiagnostics\<close> the effect on the diagnostic collection, a map from the URI of a
  document to its findings: a document of another language leaves it as it is.
\<close>

definition diagnose :: "(jstring \<Rightarrow> jstring) \<Rightarrow> document \<Rightarrow> diagnostic list" where
  "diagnose uc doc =
     keyLoop (getText doc) requiredKeys
       @ registerLoop doc 0
       @ lineLoop uc (splitLines (getText doc))"

definition updateDiagnostics ::
  "(jstring \<Rightarrow> jstring) \<Rightarrow> document \<Rightarrow> (jstring \<rightharpoonup> diagnostic list) \<Rightarrow> (jstring \<rightharpoonup> diagnostic list)" where
  "updateDiagnostics uc doc collection =
     (if languageId doc \<noteq> str ''carnival'' then collection
      else collection (uri doc \<mapsto> diagnose uc doc))"

lemma updateDiagnostics_carnival:
  "languageId doc = str ''carnival'' \<Longrightarrow>
     updateDiagnostics uc doc collection (uri doc) = Some (diagnose uc doc)"
  by (simp add: updateDiagnostics_def)

lemma updateDiagnostics_other:
  "languageId doc \<noteq> str ''carnival'' \<Longrightarrow> updateDiagnostics uc doc collection = collection"
  by (simp add: updateDiagnostics_def)

section \<open>The completion provider\<close>

text \<open>\<open>vscode.CompletionItemKind.Keyword\<close> is the number 13.\<close>

definition Keyword :: nat where
  "Keyword = 13"

definition provideCompletionItems ::
  "(jstring \<Rightarrow> jstring) \<Rightarrow> document \<Rightarrow> position \<Rightarrow> completionItem list" where
  "provideCompletionItems lc doc pos =
     map (\<lambda>inst. \<lparr>label = inst, ckind = Keyword, insertText = Some inst,
                  detail = Some (str ''Carnival instruction'')\<rparr>)
       (map (toLowerCase lc) (map fst INSTRUCTIONS))"

section \<open>Kinds of findings\<close>

text \<open>
  The findings of the line check are told apart by the fixed beginning of their
  messages: \<open>Instruction ... expects ...\<close> for a wrong number of operands and
  \<open>Invalid argument ...\<close> for an operand of the wrong kind.
\<close>

definition isArityFinding :: "diagnostic \<Rightarrow> bool" where
  "isArityFinding d = startsWith (message d) (str ''Instruction '')"

definition isOperandTypeFinding :: "diagnostic \<Rightarrow> bool" where
  "isOperandTypeFinding d = startsWith (message d) (str ''Invalid argument '')"

section \<open>Notions of the specification\<close>

text \<open>
  \<open>isSubstring k t\<close>: the string \<open>k\<close> occurs somewhere in the string \<open>t\<close>.
\<close>

definition isSubstring :: "jstring \<Rightarrow> jstring \<Rightarrow> bool" where
  "isSubstring k t = (\<exists>pre post. t = pre @ k @ post)"

text \<open>
  \<open>registerTokenAt t i n\<close>: at offset \<open>i\<close> of \<open>t\<close> there is, as a whole word, a token
  of \<open>n\<close> code units that has the shape of a register, \<open>r\<close> or \<open>R\<close> and one or two
  digits: no word character stands right before it and none right after it.
\<close>

definition registerTokenAt :: "jstring \<Rightarrow> nat \<Rightarrow> nat \<Rightarrow> bool" where
  "registerTokenAt t i n =
     (i + n \<le> length t \<and> testReg (take n (drop i t))
      \<and> (i = 0 \<or> \<not> isWord (t ! (i - 1)))
      \<and> (i + n = length t \<or> \<not> isWord (t ! (i + n))))"

text \<open>
  \<open>indent raw\<close>: the number of white-space code units in front of the line \<open>raw\<close>,
  which is the column of the document where the trimmed line and its first token begin.
\<close>

definition indent :: "jstring \<Rightarrow> nat" where
  "indent raw = length (takeWhile isSpace raw)"

text \<open>
  \<open>registerFindingAt doc i\<close>: what Check B reports for offset \<open>i\<close>, the finding for the
  match of the register pattern at \<open>i\<close> when there is one and its number is out of
  range.
\<close>

definition registerFindingAt :: "document \<Rightarrow> nat \<Rightarrow> diagnostic list" where
  "registerFindingAt doc i =
     (case matchRegisterAt (getText doc) i of
        None \<Rightarrow> []
      | Some n \<Rightarrow>
          if outOfRange (parseInt (drop 1 (take n (drop i (getText doc)))))
          then [invalidRegister doc i (take n (drop i (getText doc)))] else [])"

section \<open>The size of the instruction table\<close>

lemma INSTRUCTIONS_keys:
  "map fst INSTRUCTIONS =
     [str ''MOV'', str ''LOD'', str ''STR'', str ''PSH'', str ''POP'', str ''ADD'',
      str ''SUB'', str ''MOD'', str ''XOR'', str ''AND'', str ''NOT'', str ''OR'',
      str ''JMP'', str ''CAL'', str ''RET'', str ''BRZ'', str ''BNZ'', str ''IN'',
      str ''OUT'', str ''GIP'', str ''HLT'', str ''BRG'', str ''BNG'', str ''BRL'',
      str ''BNL'']"
  by (simp add: INSTRUCTIONS_def)

lemma INSTRUCTIONS_distinct: "distinct (map fst INSTRUCTIONS)"
  unfolding INSTRUCTIONS_keys by (simp add: str_def)

text \<open>
  C2, as the code has it: the table \<open>INSTRUCTIONS\<close> has 25 entries, with 25 different
  mnemonics, so 25 mnemonics are recognised (the four compare-and-branch instructions
  BRG, BNG, BRL and BNL come after the 21 others).
\<close>

theorem catalog_has_25_entries:
  "length INSTRUCTIONS = 25 \<and> distinct (map fst INSTRUCTIONS)
     \<and> card (dom lookupInstruction) = 25"
proof -
  have l: "length INSTRUCTIONS = 25" by (simp add: INSTRUCTIONS_def)
  have eq: "lookupInstruction = map_of INSTRUCTIONS"
    by (rule ext) (simp add: lookupInstruction_def)
  have "dom lookupInstruction = fst ` set INSTRUCTIONS"
    unfolding eq by (rule dom_map_of_conv_image_fst)
  then have "dom lookupInstruction = set (map fst INSTRUCTIONS)"
    by simp
  then have "card (dom lookupInstruction) = length (map fst INSTRUCTIONS)"
    using INSTRUCTIONS_distinct by (simp only: distinct_card)
  with l INSTRUCTIONS_distinct show ?thesis by simp
qed

text \<open>C2 as stated fails: the table does not have 23 entries.\<close>

theorem catalog_not_23_entries: "\<not> (length INSTRUCTIONS = 23)"
  by (simp add: INSTRUCTIONS_def)

section \<open>The line check: auxiliary facts\<close>

lemma kindLoop_iff: "kindLoop ks a v = (v \<or> list_ex (\<lambda>k. kindTest k a) ks)"
  by (induction ks arbitrary: v) auto

lemma checkArg_iff:
  "checkArg lineNum line instruction ks a =
     (if list_ex (\<lambda>k. kindTest k a) ks then []
      else [invalidArgument lineNum line instruction ks a])"
  by (simp add: checkArg_def kindLoop_iff)

lemma checkLine_known:
  assumes "trim raw \<noteq> []" and "tokens (trim raw) = firstPart # args"
    and "lookupInstruction (toUpperCase uc firstPart) = Some signature"
  shows "checkLine uc lineNum raw =
     (if length args \<noteq> length signature
      then [wrongArity lineNum (trim raw) (toUpperCase uc firstPart) (length signature) (length args)]
      else argLoop lineNum (trim raw) (toUpperCase uc firstPart) signature args)"
  using assms by (simp add: checkLine_def matchTokens_def Let_def)

lemma checkLine_unknown:
  assumes "trim raw \<noteq> []" and "tokens (trim raw) = firstPart # args"
    and "lookupInstruction (toUpperCase uc firstPart) = None"
  shows "checkLine uc lineNum raw =
     (if startsWith firstPart (str ''#'') \<or> firstPart \<in> set metaKeys
         \<or> startsWith firstPart (str ''.'') then []
      else [invalidInstruction lineNum firstPart (toUpperCase uc firstPart)])"
  using assms by (simp add: checkLine_def matchTokens_def Let_def)

lemma testReg_testLabel: "testReg a \<Longrightarrow> testLabel a"
  by (cases a) (auto simp: testReg_def testLabel_def isLetter_def isWord_def isDigit_def list_all_iff)

lemma trim_head:
  assumes "trim raw = c # cs" shows "\<not> isSpace c"
proof -
  define s where "s = dropWhile isSpace raw"
  have "s = rev (dropWhile isSpace (rev s)) @ rev (takeWhile isSpace (rev s))"
    by (metis rev_append rev_rev_ident takeWhile_dropWhile_id)
  with assms have s: "s = c # cs @ rev (takeWhile isSpace (rev s))"
    by (simp add: trim_def s_def)
  then have "s \<noteq> []" by auto
  then have "\<not> isSpace (hd s)" unfolding s_def by (rule hd_dropWhile)
  with s show ?thesis by (metis list.sel(1))
qed

lemma tokens_first_prefix:
  assumes "\<not> isSpace c" and "tokens (c # cs) = p # ps"
  shows "take (length p) (c # cs) = p"
proof (cases "c = 39 \<and> 39 \<in> set cs")
  case True
  then have p: "p = c # takeWhile (\<lambda>x. x \<noteq> 39) cs @ [39]"
    using assms by (simp add: tokens.simps)
  from True have "dropWhile (\<lambda>x. x \<noteq> 39) cs \<noteq> []" by auto
  moreover from this have "hd (dropWhile (\<lambda>x. x \<noteq> 39) cs) = 39"
    using hd_dropWhile [of "\<lambda>x. x \<noteq> 39" cs] by simp
  ultimately obtain r where r: "dropWhile (\<lambda>x. x \<noteq> 39) cs = 39 # r"
    by (cases "dropWhile (\<lambda>x. x \<noteq> 39) cs") auto
  have "cs = takeWhile (\<lambda>x. x \<noteq> 39) cs @ dropWhile (\<lambda>x. x \<noteq> 39) cs" by simp
  with r have "cs = (takeWhile (\<lambda>x. x \<noteq> 39) cs @ [39]) @ r" by simp
  then have "c # cs = p @ r" using p by simp
  then show ?thesis by (metis append_eq_conv_conj)
next
  case False
  then have p: "p = c # takeWhile (\<lambda>x. \<not> isSpace x) cs"
    using assms by (auto simp: tokens.simps split: if_splits)
  have "cs = takeWhile (\<lambda>x. \<not> isSpace x) cs @ dropWhile (\<lambda>x. \<not> isSpace x) cs" by simp
  then have "c # cs = p @ dropWhile (\<lambda>x. \<not> isSpace x) cs" using p by simp
  then show ?thesis by (metis append_eq_conv_conj)
qed

lemma first_token_prefix:
  assumes "tokens (trim raw) = firstPart # args"
  shows "take (length firstPart) (trim raw) = firstPart"
proof (cases "trim raw")
  case Nil
  with assms show ?thesis by (simp add: tokens.simps)
next
  case (Cons c cs)
  with assms trim_head [OF Cons] show ?thesis
    by (simp add: tokens_first_prefix)
qed

lemma tokens_nonempty:
  assumes "trim raw \<noteq> []" shows "tokens (trim raw) \<noteq> []"
proof (cases "trim raw")
  case Nil with assms show ?thesis by simp
next
  case (Cons c cs)
  with trim_head [OF Cons] show ?thesis by (simp add: tokens.simps)
qed

lemma lineLoop_enumerate:
  "lineLoop uc ls = concat (map (\<lambda>(n, l). checkLine uc n l) (enumerate 0 ls))"
proof -
  have "map (\<lambda>n. checkLine uc n (ls ! n)) [0 ..< length ls]
      = map (\<lambda>(n, l). checkLine uc n l) (enumerate 0 ls)"
    by (rule nth_equalityI) (simp_all add: nth_enumerate_eq)
  then show ?thesis by (simp add: lineLoop_def)
qed

lemma argLoop_zip:
  assumes "length args = length signature"
  shows "argLoop lineNum line instruction signature args =
    concat (map (\<lambda>(ks, a). checkArg lineNum line instruction ks a) (zip signature args))"
proof -
  have "map (\<lambda>i. checkArg lineNum line instruction (signature ! i) (args ! i)) [0 ..< length signature]
      = map (\<lambda>(ks, a). checkArg lineNum line instruction ks a) (zip signature args)"
    using assms by (intro nth_equalityI) simp_all
  then show ?thesis by (simp add: argLoop_def)
qed

lemmas line_eval = str_def trim_def isSpace_def tokens.simps toUpperCase_def asciiUpper_def
  lookupInstruction_def INSTRUCTIONS_def

lemma line_MOV_r99_r1:
  "trim (str ''MOV r99 r1'') = str ''MOV r99 r1''"
  "tokens (str ''MOV r99 r1'') = [str ''MOV'', str ''r99'', str ''r1'']"
  "toUpperCase uc (str ''MOV'') = str ''MOV''"
  "lookupInstruction (str ''MOV'') = Some [[Reg, Num], [Reg]]"
  by (simp_all add: line_eval)

section \<open>Operands of register shape\<close>

text \<open>
  C3: on a line with a known mnemonic and the right number of operands, the findings of
  the line are those of its operand slots, slot by slot, and a slot whose kinds include
  \<open>Reg\<close> has no finding when its operand is \<open>r\<close> or \<open>R\<close> followed by one or two digits,
  whatever the number the digits stand for: the line check never looks at the range 0-15.
\<close>

theorem register_shape_not_range:
  assumes "trim raw \<noteq> []" and "tokens (trim raw) = firstPart # args"
    and "lookupInstruction (toUpperCase uc firstPart) = Some signature"
    and "length args = length signature"
    and "i < length signature" and "Reg \<in> set (signature ! i)"
    and "args ! i = c # ds" and "[c] = str ''r'' \<or> [c] = str ''R''"
    and "length ds = 1 \<or> length ds = 2" and "list_all isDigit ds"
  shows "checkLine uc lineNum raw =
      concat (map (\<lambda>j. checkArg lineNum (trim raw) (toUpperCase uc firstPart)
                      (signature ! j) (args ! j)) [0 ..< length signature])
    \<and> checkArg lineNum (trim raw) (toUpperCase uc firstPart) (signature ! i) (args ! i) = []"
proof
  show "checkLine uc lineNum raw =
      concat (map (\<lambda>j. checkArg lineNum (trim raw) (toUpperCase uc firstPart)
                      (signature ! j) (args ! j)) [0 ..< length signature])"
    using assms(1-4) by (simp add: checkLine_known argLoop_def)
  have "testReg (args ! i)"
    using assms(7-10) by (auto simp: testReg_def str_def)
  then have "kindTest Reg (args ! i)" by (simp add: kindTest_def)
  with assms(6) have "list_ex (\<lambda>k. kindTest k (args ! i)) (signature ! i)"
    by (auto simp: list_ex_iff)
  then show "checkArg lineNum (trim raw) (toUpperCase uc firstPart) (signature ! i) (args ! i) = []"
    by (simp add: checkArg_iff)
qed

text \<open>The line \<open>MOV r99 r1\<close>: register 99 does not exist, and the line has no finding.\<close>

theorem register_shape_not_range_witness:
  "trim (str ''MOV r99 r1'') \<noteq> []
   \<and> tokens (trim (str ''MOV r99 r1'')) = [str ''MOV'', str ''r99'', str ''r1'']
   \<and> lookupInstruction (toUpperCase (\<lambda>s. s) (str ''MOV'')) = Some [[Reg, Num], [Reg]]
   \<and> Reg \<in> set ([[Reg, Num], [Reg]] ! 0)
   \<and> [str ''r99'', str ''r1''] ! 0 = 114 # str ''99''
   \<and> list_all isDigit (str ''99'')
   \<and> checkArg 0 (str ''MOV r99 r1'') (str ''MOV'') [Reg, Num] (str ''r99'') = []
   \<and> checkLine (\<lambda>s. s) 0 (str ''MOV r99 r1'') = []"
proof -
  have h1: "trim (str ''MOV r99 r1'') \<noteq> []"
    by (simp add: line_MOV_r99_r1) (simp add: str_def)
  have h2: "tokens (trim (str ''MOV r99 r1'')) = str ''MOV'' # [str ''r99'', str ''r1'']"
    by (simp add: line_MOV_r99_r1)
  have h3: "lookupInstruction (toUpperCase (\<lambda>s. s) (str ''MOV'')) = Some [[Reg, Num], [Reg]]"
    by (simp add: line_MOV_r99_r1)
  have h7: "[str ''r99'', str ''r1''] ! 0 = 114 # str ''99''" by (simp add: str_def)
  have h10: "list_all isDigit (str ''99'')" by (simp add: str_def isDigit_def)
  have r1: "checkArg 0 (str ''MOV r99 r1'') (str ''MOV'') [Reg] (str ''r1'') = []"
    by (simp add: checkArg_iff kindTest_def testReg_def str_def isDigit_def)
  from register_shape_not_range [where uc = "\<lambda>s. s" and lineNum = 0 and i = 0, OF h1 h2 h3 _ _ _ h7 _ _ h10]
  have a: "checkLine (\<lambda>s. s) 0 (str ''MOV r99 r1'') =
      concat (map (\<lambda>j. checkArg 0 (trim (str ''MOV r99 r1'')) (toUpperCase (\<lambda>s. s) (str ''MOV''))
                      ([[Reg, Num], [Reg]] ! j) ([str ''r99'', str ''r1''] ! j)) [0 ..< length [[Reg, Num], [Reg]]])
    \<and> checkArg 0 (trim (str ''MOV r99 r1'')) (toUpperCase (\<lambda>s. s) (str ''MOV'')) ([[Reg, Num], [Reg]] ! 0) ([str ''r99'', str ''r1''] ! 0) = []"
    by (simp add: str_def)
  have u: "[0 ..< length [[Reg, Num], [Reg]]] = [0, 1]" by (simp add: upt_rec)
  from a have b: "checkArg 0 (str ''MOV r99 r1'') (str ''MOV'') [Reg, Num] (str ''r99'') = []"
    by (simp add: line_MOV_r99_r1)
  from a have "checkLine (\<lambda>s. s) 0 (str ''MOV r99 r1'') = []"
    unfolding u by (simp add: line_MOV_r99_r1 r1)
  with h1 h2 h3 h7 h10 b show ?thesis by simp
qed

section \<open>Registers in label slots\<close>

lemma line_JMP_r5:
  "trim (str ''JMP r5'') = str ''JMP r5''"
  "tokens (str ''JMP r5'') = [str ''JMP'', str ''r5'']"
  "toUpperCase uc (str ''JMP'') = str ''JMP''"
  "lookupInstruction (str ''JMP'') = Some [[Num, Label]]"
  by (simp_all add: line_eval)

lemma checkLine_JMP_r5: "checkLine uc lineNum (str ''JMP r5'') = []"
proof -
  have "trim (str ''JMP r5'') \<noteq> []"
    by (simp add: line_JMP_r5) (simp add: str_def)
  then have "checkLine uc lineNum (str ''JMP r5'') =
      argLoop lineNum (str ''JMP r5'') (str ''JMP'') [[Num, Label]] [str ''r5'']"
    by (simp add: checkLine_known [where firstPart = "str ''JMP''" and args = "[str ''r5'']"
          and signature = "[[Num, Label]]"] line_JMP_r5)
  also have "\<dots> = []"
    by (simp add: argLoop_zip checkArg_iff kindTest_def testLabel_def)
      (simp add: str_def isLetter_def isWord_def isDigit_def)
  finally show ?thesis .
qed

text \<open>
  C10: a string that passes the test for \<open>Reg\<close> passes the test for \<open>Label\<close>, so a slot
  whose kinds include \<open>Label\<close> has no finding for an operand of register shape. The
  only slot of \<open>JMP\<close> takes \<open>Num\<close> or \<open>Label\<close>, and the line \<open>JMP r5\<close> has no finding.
\<close>

theorem register_shape_is_label_shape:
  "(testReg a \<longrightarrow> testLabel a)
   \<and> (testReg a \<and> Label \<in> set expectedKinds \<longrightarrow>
        checkArg lineNum line instruction expectedKinds a = [])
   \<and> testReg (str ''r5'')
   \<and> lookupInstruction (str ''JMP'') = Some [[Num, Label]]
   \<and> checkLine uc lineNum (str ''JMP r5'') = []"
proof -
  have "checkArg lineNum line instruction expectedKinds a = []"
    if "testReg a" and "Label \<in> set expectedKinds"
  proof -
    from that(1) have "kindTest Label a"
      by (simp add: kindTest_def testReg_testLabel)
    with that(2) have "list_ex (\<lambda>k. kindTest k a) expectedKinds"
      by (auto simp: list_ex_iff)
    then show ?thesis by (simp add: checkArg_iff)
  qed
  moreover have "testReg (str ''r5'')"
    by (simp add: testReg_def str_def isDigit_def)
  ultimately show ?thesis
    by (simp add: testReg_testLabel line_JMP_r5 checkLine_JMP_r5)
qed

theorem register_shape_is_label_shape_witness:
  "testReg (str ''r5'') \<and> testLabel (str ''r5'') \<and> Label \<in> set [Num, Label]
   \<and> checkArg 0 (str ''JMP r5'') (str ''JMP'') [Num, Label] (str ''r5'') = []
   \<and> checkLine (\<lambda>s. s) 0 (str ''JMP r5'') = []"
proof -
  have r: "testReg (str ''r5'')"
    by (simp add: testReg_def str_def isDigit_def)
  from register_shape_is_label_shape
    [where a = "str ''r5''" and expectedKinds = "[Num, Label]" and lineNum = 0
       and line = "str ''JMP r5''" and instruction = "str ''JMP''" and uc = "\<lambda>s. s"] r
  show ?thesis by simp
qed

section \<open>Operands of the wrong kind\<close>

lemma line_ADD_r1_r2_99:
  "trim (str ''ADD r1 r2 99'') = str ''ADD r1 r2 99''"
  "tokens (str ''ADD r1 r2 99'') = [str ''ADD'', str ''r1'', str ''r2'', str ''99'']"
  "toUpperCase uc (str ''ADD'') = str ''ADD''"
  "lookupInstruction (str ''ADD'') = Some [[Reg, Num], [Reg, Num], [Reg]]"
  by (simp_all add: line_eval)

lemma checkLine_ADD_r1_r2_99:
  "checkLine uc lineNum (str ''ADD r1 r2 99'') =
     [invalidArgument lineNum (str ''ADD r1 r2 99'') (str ''ADD'') [Reg] (str ''99'')]"
proof -
  have "trim (str ''ADD r1 r2 99'') \<noteq> []"
    by (simp add: line_ADD_r1_r2_99) (simp add: str_def)
  then have "checkLine uc lineNum (str ''ADD r1 r2 99'') =
      argLoop lineNum (str ''ADD r1 r2 99'') (str ''ADD'') [[Reg, Num], [Reg, Num], [Reg]]
        [str ''r1'', str ''r2'', str ''99'']"
    by (simp add: checkLine_known [where firstPart = "str ''ADD''"
          and args = "[str ''r1'', str ''r2'', str ''99'']"
          and signature = "[[Reg, Num], [Reg, Num], [Reg]]"] line_ADD_r1_r2_99)
  also have "\<dots> = [invalidArgument lineNum (str ''ADD r1 r2 99'') (str ''ADD'') [Reg] (str ''99'')]"
    by (simp add: argLoop_zip checkArg_iff kindTest_def testReg_def)
      (simp add: str_def isDigit_def)
  finally show ?thesis .
qed

lemma invalidArgument_record:
  "invalidArgument lineNum line instruction expectedKinds actual =
     \<lparr>drange = RangeV (Position lineNum 0) (Position lineNum (length line)),
      message = str ''Invalid argument '' @ [39] @ actual @ [39] @ str '' for '' @ instruction
          @ str ''. Expected: '' @ joinOr (map kindName expectedKinds),
      severity = Error, code = None\<rparr>"
  by (simp add: invalidArgument_def newDiagnostic_def)

text \<open>
  C5: on a line with a known mnemonic and the right number of operands, the findings
  are, slot by slot and in the order of the slots, one Error for each operand that
  passes the test of none of the kinds of its slot, and nothing for the other operands.
  The message of the finding names the operand and the kinds of the slot (its span
  goes from column 0 to the length of the trimmed line). The line \<open>ADD r1 r2 99\<close> has one finding, for \<open>99\<close> in
  the third slot, which takes \<open>Reg\<close> only.
\<close>

theorem operand_type_findings:
  "(trim raw \<noteq> [] \<and> tokens (trim raw) = firstPart # args
      \<and> lookupInstruction (toUpperCase uc firstPart) = Some signature
      \<and> length args = length signature \<longrightarrow>
    checkLine uc lineNum raw =
      concat (map (\<lambda>i. if list_ex (\<lambda>k. kindTest k (args ! i)) (signature ! i) then []
           else [\<lparr>drange = RangeV (Position lineNum 0) (Position lineNum (length (trim raw))),
                  message = str ''Invalid argument '' @ [39] @ args ! i @ [39] @ str '' for ''
                    @ toUpperCase uc firstPart @ str ''. Expected: ''
                    @ joinOr (map kindName (signature ! i)),
                  severity = Error, code = None\<rparr>])
        [0 ..< length signature]))
   \<and> checkLine uc lineNum (str ''ADD r1 r2 99'') =
       [\<lparr>drange = RangeV (Position lineNum 0) (Position lineNum 12),
         message = str ''Invalid argument '' @ [39] @ str ''99'' @ [39]
           @ str '' for ADD. Expected: Reg'',
         severity = Error, code = None\<rparr>]"
proof -
  have ex: "checkLine uc lineNum (str ''ADD r1 r2 99'') =
       [\<lparr>drange = RangeV (Position lineNum 0) (Position lineNum 12),
         message = str ''Invalid argument '' @ [39] @ str ''99'' @ [39]
           @ str '' for ADD. Expected: Reg'',
         severity = Error, code = None\<rparr>]"
    unfolding checkLine_ADD_r1_r2_99 invalidArgument_record
    by (simp add: kindName_def str_def)
  have gen: "checkLine uc lineNum raw =
      concat (map (\<lambda>i. if list_ex (\<lambda>k. kindTest k (args ! i)) (signature ! i) then []
           else [\<lparr>drange = RangeV (Position lineNum 0) (Position lineNum (length (trim raw))),
                  message = str ''Invalid argument '' @ [39] @ args ! i @ [39] @ str '' for ''
                    @ toUpperCase uc firstPart @ str ''. Expected: ''
                    @ joinOr (map kindName (signature ! i)),
                  severity = Error, code = None\<rparr>])
        [0 ..< length signature])"
    if "trim raw \<noteq> []" and "tokens (trim raw) = firstPart # args"
      and "lookupInstruction (toUpperCase uc firstPart) = Some signature"
      and "length args = length signature"
    unfolding checkLine_known [OF that(1-3)] argLoop_def checkArg_iff invalidArgument_record
    using that(4) by simp
  from ex gen show ?thesis by blast
qed

text \<open>
  The line \<open>ADD x .b 99\<close>: each of the three operands is of the wrong kind, and each
  slot has its finding.
\<close>

theorem operand_type_findings_witness:
  "trim (str ''ADD x .b 99'') \<noteq> []
   \<and> tokens (trim (str ''ADD x .b 99'')) = [str ''ADD'', str ''x'', str ''.b'', str ''99'']
   \<and> lookupInstruction (toUpperCase (\<lambda>s. s) (str ''ADD'')) = Some [[Reg, Num], [Reg, Num], [Reg]]
   \<and> length [str ''x'', str ''.b'', str ''99''] = length [[Reg, Num], [Reg, Num], [Reg :: kind]]
   \<and> checkLine (\<lambda>s. s) 0 (str ''ADD x .b 99'') =
      [\<lparr>drange = RangeV (Position 0 0) (Position 0 11),
        message = str ''Invalid argument '' @ [39] @ str ''x'' @ [39]
          @ str '' for ADD. Expected: Reg or Num'',
        severity = Error, code = None\<rparr>,
       \<lparr>drange = RangeV (Position 0 0) (Position 0 11),
        message = str ''Invalid argument '' @ [39] @ str ''.b'' @ [39]
          @ str '' for ADD. Expected: Reg or Num'',
        severity = Error, code = None\<rparr>,
       \<lparr>drange = RangeV (Position 0 0) (Position 0 11),
        message = str ''Invalid argument '' @ [39] @ str ''99'' @ [39]
          @ str '' for ADD. Expected: Reg'',
        severity = Error, code = None\<rparr>]"
proof -
  have tr: "trim (str ''ADD x .b 99'') = str ''ADD x .b 99''"
    by (simp add: line_eval)
  have h1: "trim (str ''ADD x .b 99'') \<noteq> []"
    by (simp add: tr) (simp add: str_def)
  have h2: "tokens (trim (str ''ADD x .b 99'')) = str ''ADD'' # [str ''x'', str ''.b'', str ''99'']"
    by (simp add: tr) (simp add: line_eval)
  have h3: "lookupInstruction (toUpperCase (\<lambda>s. s) (str ''ADD'')) = Some [[Reg, Num], [Reg, Num], [Reg]]"
    by (simp add: line_ADD_r1_r2_99)
  have u: "[0 ..< length [[Reg, Num], [Reg, Num], [Reg :: kind]]] = [0, 1, 2]"
    by (simp add: upt_rec)
  from operand_type_findings [where uc = "\<lambda>s. s" and lineNum = 0
      and raw = "str ''ADD x .b 99''" and firstPart = "str ''ADD''"
      and args = "[str ''x'', str ''.b'', str ''99'']"
      and signature = "[[Reg, Num], [Reg, Num], [Reg]]"] h1 h2 h3
  have "checkLine (\<lambda>s. s) 0 (str ''ADD x .b 99'') =
      concat (map (\<lambda>i. if list_ex (\<lambda>k. kindTest k ([str ''x'', str ''.b'', str ''99''] ! i))
                ([[Reg, Num], [Reg, Num], [Reg]] ! i) then []
           else [\<lparr>drange = RangeV (Position 0 0) (Position 0 (length (trim (str ''ADD x .b 99'')))),
                  message = str ''Invalid argument '' @ [39] @ [str ''x'', str ''.b'', str ''99''] ! i
                    @ [39] @ str '' for ''
                    @ toUpperCase (\<lambda>s. s) (str ''ADD'') @ str ''. Expected: ''
                    @ joinOr (map kindName ([[Reg, Num], [Reg, Num], [Reg]] ! i)),
                  severity = Error, code = None\<rparr>])
        [0 ..< length [[Reg, Num], [Reg, Num], [Reg :: kind]]])"
    by simp
  then have "checkLine (\<lambda>s. s) 0 (str ''ADD x .b 99'') =
      [\<lparr>drange = RangeV (Position 0 0) (Position 0 11),
        message = str ''Invalid argument '' @ [39] @ str ''x'' @ [39]
          @ str '' for ADD. Expected: Reg or Num'',
        severity = Error, code = None\<rparr>,
       \<lparr>drange = RangeV (Position 0 0) (Position 0 11),
        message = str ''Invalid argument '' @ [39] @ str ''.b'' @ [39]
          @ str '' for ADD. Expected: Reg or Num'',
        severity = Error, code = None\<rparr>,
       \<lparr>drange = RangeV (Position 0 0) (Position 0 11),
        message = str ''Invalid argument '' @ [39] @ str ''99'' @ [39]
          @ str '' for ADD. Expected: Reg'',
        severity = Error, code = None\<rparr>]"
    unfolding u
    by (simp add: line_eval kindTest_def testReg_def testNum_def isDigit_def kindName_def)
  with h1 h2 h3 show ?thesis by simp
qed

section \<open>Findings of a whole document\<close>

lemma keyLoop_none:
  "\<not> includes_js t (str ''meta.name'') \<Longrightarrow> \<not> includes_js t (str ''meta.version'')
    \<Longrightarrow> \<not> includes_js t (str ''meta.author'')
    \<Longrightarrow> keyLoop t requiredKeys =
      [missingKey (str ''meta.name''), missingKey (str ''meta.version''),
       missingKey (str ''meta.author'')]"
  by (simp add: requiredKeys_def)

lemma missingKey_record:
  "missingKey key =
     \<lparr>drange = RangeV (Position 0 0) (Position 0 0), message = str ''Missing key: '' @ key,
      severity = Information, code = Some (str ''missing_'' @ key)\<rparr>"
  by (simp add: missingKey_def newDiagnostic_def)

lemma wrongArity_record:
  "wrongArity lineNum line instruction expected got =
     \<lparr>drange = RangeV (Position lineNum 0) (Position lineNum (length line)),
      message = str ''Instruction '' @ instruction @ str '' expects '' @ showNat expected
          @ str '' argument(s), got '' @ showNat got,
      severity = Error, code = None\<rparr>"
  by (simp add: wrongArity_def newDiagnostic_def)

lemma invalidInstruction_record:
  "invalidInstruction lineNum firstPart instruction =
     \<lparr>drange = RangeV (Position lineNum 0) (Position lineNum (length firstPart)),
      message = str ''Invalid instruction: '' @ instruction,
      severity = Error, code = None\<rparr>"
  by (simp add: invalidInstruction_def newDiagnostic_def)

lemmas register_eval = registerLoop.simps execRegister.simps matchRegisterAt_def
  wordBoundary_def wordAt_def digitAt_def isWord_def isLetter_def isDigit_def parseInt_def
  outOfRange_def

lemma diagnose_one_line:
  assumes "splitLines (getText doc) = [l]"
    and "keyLoop (getText doc) requiredKeys = ks"
    and "registerLoop doc 0 = rs"
  shows "diagnose uc doc = ks @ rs @ checkLine uc 0 l"
  using assms by (simp add: diagnose_def lineLoop_enumerate)

lemma line_MOV_5:
  "trim (str ''MOV 5'') = str ''MOV 5''"
  "tokens (str ''MOV 5'') = [str ''MOV'', str ''5'']"
  by (simp_all add: line_eval)

lemma checkLine_MOV_5:
  "checkLine uc lineNum (str ''MOV 5'') =
     [wrongArity lineNum (str ''MOV 5'') (str ''MOV'') 2 1]"
proof -
  have "trim (str ''MOV 5'') \<noteq> []"
    by (simp add: line_MOV_5) (simp add: str_def)
  then show ?thesis
    by (simp add: checkLine_known [where firstPart = "str ''MOV''" and args = "[str ''5'']"
          and signature = "[[Reg, Num], [Reg]]"] line_MOV_5 line_MOV_r99_r1 numeral_2_eq_2)
qed

lemma diagnose_MOV_5:
  "diagnose uc \<lparr>languageId = l, uri = u, getText = str ''MOV 5'', positionAt = pa\<rparr> =
     [missingKey (str ''meta.name''), missingKey (str ''meta.version''),
      missingKey (str ''meta.author''), wrongArity 0 (str ''MOV 5'') (str ''MOV'') 2 1]"
proof -
  have s: "splitLines (str ''MOV 5'') = [str ''MOV 5'']"
    by (simp add: str_def consHead_def)
  have k: "keyLoop (str ''MOV 5'') requiredKeys =
     [missingKey (str ''meta.name''), missingKey (str ''meta.version''),
      missingKey (str ''meta.author'')]"
    by (rule keyLoop_none) (simp_all add: str_def startsWith_def)
  have r: "registerLoop \<lparr>languageId = l, uri = u, getText = str ''MOV 5'', positionAt = pa\<rparr> 0 = []"
    by (simp add: str_def) (simp add: register_eval)
  show ?thesis
    by (simp add: diagnose_one_line [where l = "str ''MOV 5''", OF _ _ r] s k checkLine_MOV_5)
qed

section \<open>A wrong number of operands\<close>

lemma invalidArgument_kind:
  "isOperandTypeFinding (invalidArgument n l i ks a)"
  "\<not> isArityFinding (invalidArgument n l i ks a)"
  by (simp_all add: isOperandTypeFinding_def isArityFinding_def invalidArgument_record
      startsWith_def str_def)

lemma invalidInstruction_kind:
  "\<not> isOperandTypeFinding (invalidInstruction n f i)"
  "\<not> isArityFinding (invalidInstruction n f i)"
  by (simp_all add: isOperandTypeFinding_def isArityFinding_def invalidInstruction_record
      startsWith_def str_def)

lemma wrongArity_kind:
  "\<not> isOperandTypeFinding (wrongArity n l i e g)"
  "isArityFinding (wrongArity n l i e g)"
  by (simp_all add: isOperandTypeFinding_def isArityFinding_def wrongArity_record
      startsWith_def str_def)

lemma argLoop_members:
  "d \<in> set (argLoop n l i signature args) \<Longrightarrow> \<exists>ks a. d = invalidArgument n l i ks a"
  by (auto simp: argLoop_def checkArg_def split: if_splits)

lemma checkLine_arity_or_type:
  "(\<forall>d \<in> set (checkLine uc n raw). \<not> isOperandTypeFinding d)
   \<or> (\<forall>d \<in> set (checkLine uc n raw). \<not> isArityFinding d)"
proof (cases "trim raw = []")
  case True
  then show ?thesis by (simp add: checkLine_def)
next
  case False
  then obtain firstPart args where t: "tokens (trim raw) = firstPart # args"
    using tokens_nonempty [of raw] by (cases "tokens (trim raw)") auto
  show ?thesis
  proof (cases "lookupInstruction (toUpperCase uc firstPart)")
    case None
    show ?thesis
      unfolding checkLine_unknown [OF False t None]
      by (simp add: invalidInstruction_kind)
  next
    case (Some signature)
    show ?thesis
    proof (cases "length args = length signature")
      case True
      then have "\<forall>d \<in> set (checkLine uc n raw). \<not> isArityFinding d"
        unfolding checkLine_known [OF False t Some]
        by (auto dest!: argLoop_members simp: invalidArgument_kind)
      then show ?thesis ..
    next
      case False
      with \<open>trim raw \<noteq> []\<close> t Some show ?thesis
        by (simp add: checkLine_known wrongArity_kind)
    qed
  qed
qed

text \<open>
  What the line check does on a line with a known mnemonic and another number of
  operands than the mnemonic has slots: it gives one finding and nothing else, an Error
  that tells the expected and the actual number. Its span goes from column 0 to the
  length of the trimmed line. No line has both a finding for its number of operands
  and a finding for the kind of an operand. The line \<open>MOV 5\<close> has the one finding
  \<open>Instruction MOV expects 2 argument(s), got 1\<close>, which is also the only Error of
  the document that consists of this line.
\<close>

theorem arity_mismatch:
  "(trim raw \<noteq> [] \<and> tokens (trim raw) = firstPart # args
      \<and> lookupInstruction (toUpperCase uc firstPart) = Some signature
      \<and> length args \<noteq> length signature \<longrightarrow>
    checkLine uc lineNum raw =
      [\<lparr>drange = RangeV (Position lineNum 0) (Position lineNum (length (trim raw))),
        message = str ''Instruction '' @ toUpperCase uc firstPart @ str '' expects ''
          @ showNat (length signature) @ str '' argument(s), got '' @ showNat (length args),
        severity = Error, code = None\<rparr>])
   \<and> \<not> (\<exists>d1 \<in> set (checkLine uc lineNum raw). \<exists>d2 \<in> set (checkLine uc lineNum raw).
          isArityFinding d1 \<and> isOperandTypeFinding d2)
   \<and> checkLine uc lineNum (str ''MOV 5'') =
      [\<lparr>drange = RangeV (Position lineNum 0) (Position lineNum 5),
        message = str ''Instruction MOV expects 2 argument(s), got 1'',
        severity = Error, code = None\<rparr>]
   \<and> filter (\<lambda>d. severity d = Error)
        (diagnose uc \<lparr>languageId = l, uri = u, getText = str ''MOV 5'', positionAt = pa\<rparr>) =
      [\<lparr>drange = RangeV (Position 0 0) (Position 0 5),
        message = str ''Instruction MOV expects 2 argument(s), got 1'',
        severity = Error, code = None\<rparr>]"
proof -
  have gen: "checkLine uc lineNum raw =
      [\<lparr>drange = RangeV (Position lineNum 0) (Position lineNum (length (trim raw))),
        message = str ''Instruction '' @ toUpperCase uc firstPart @ str '' expects ''
          @ showNat (length signature) @ str '' argument(s), got '' @ showNat (length args),
        severity = Error, code = None\<rparr>]"
    if "trim raw \<noteq> []" and "tokens (trim raw) = firstPart # args"
      and "lookupInstruction (toUpperCase uc firstPart) = Some signature"
      and "length args \<noteq> length signature"
    unfolding checkLine_known [OF that(1-3)] wrongArity_record
    using that(4) by simp
  have both: "\<not> (\<exists>d1 \<in> set (checkLine uc lineNum raw). \<exists>d2 \<in> set (checkLine uc lineNum raw).
          isArityFinding d1 \<and> isOperandTypeFinding d2)"
    using checkLine_arity_or_type [of uc lineNum raw] by blast
  have w: "wrongArity n (str ''MOV 5'') (str ''MOV'') 2 1 =
      \<lparr>drange = RangeV (Position n 0) (Position n 5),
        message = str ''Instruction MOV expects 2 argument(s), got 1'',
        severity = Error, code = None\<rparr>" for n
    by (simp add: wrongArity_record showNat.simps str_def)
  have ex: "checkLine uc lineNum (str ''MOV 5'') =
      [\<lparr>drange = RangeV (Position lineNum 0) (Position lineNum 5),
        message = str ''Instruction MOV expects 2 argument(s), got 1'',
        severity = Error, code = None\<rparr>]"
    unfolding checkLine_MOV_5 w ..
  have d: "filter (\<lambda>d. severity d = Error)
        (diagnose uc \<lparr>languageId = l, uri = u, getText = str ''MOV 5'', positionAt = pa\<rparr>) =
      [\<lparr>drange = RangeV (Position 0 0) (Position 0 5),
        message = str ''Instruction MOV expects 2 argument(s), got 1'',
        severity = Error, code = None\<rparr>]"
    unfolding diagnose_MOV_5 w missingKey_record by simp
  from gen both ex d show ?thesis by blast
qed

theorem arity_mismatch_witness:
  "trim (str ''MOV 5'') \<noteq> []
   \<and> tokens (trim (str ''MOV 5'')) = [str ''MOV'', str ''5'']
   \<and> lookupInstruction (toUpperCase (\<lambda>s. s) (str ''MOV'')) = Some [[Reg, Num], [Reg]]
   \<and> length [str ''5''] \<noteq> length [[Reg, Num], [Reg :: kind]]
   \<and> checkLine (\<lambda>s. s) 0 (str ''MOV 5'') =
      [\<lparr>drange = RangeV (Position 0 0) (Position 0 5),
        message = str ''Instruction MOV expects 2 argument(s), got 1'',
        severity = Error, code = None\<rparr>]"
proof -
  have h1: "trim (str ''MOV 5'') \<noteq> []"
    by (simp add: line_MOV_5) (simp add: str_def)
  have h2: "tokens (trim (str ''MOV 5'')) = str ''MOV'' # [str ''5'']"
    by (simp add: line_MOV_5)
  have h3: "lookupInstruction (toUpperCase (\<lambda>s. s) (str ''MOV'')) = Some [[Reg, Num], [Reg]]"
    by (simp add: line_MOV_r99_r1)
  from arity_mismatch [where uc = "\<lambda>s. s" and lineNum = 0 and raw = "str ''MOV 5''"
      and firstPart = "str ''MOV''" and args = "[str ''5'']"
      and signature = "[[Reg, Num], [Reg]]"] h1 h2 h3
  have "checkLine (\<lambda>s. s) 0 (str ''MOV 5'') =
      [\<lparr>drange = RangeV (Position 0 0) (Position 0 (length (trim (str ''MOV 5'')))),
        message = str ''Instruction '' @ toUpperCase (\<lambda>s. s) (str ''MOV'') @ str '' expects ''
          @ showNat (length [[Reg, Num], [Reg :: kind]]) @ str '' argument(s), got ''
          @ showNat (length [str ''5'']),
        severity = Error, code = None\<rparr>]"
    by simp
  then have "checkLine (\<lambda>s. s) 0 (str ''MOV 5'') =
      [\<lparr>drange = RangeV (Position 0 0) (Position 0 5),
        message = str ''Instruction MOV expects 2 argument(s), got 1'',
        severity = Error, code = None\<rparr>]"
    by (simp add: trim_def isSpace_def toUpperCase_def asciiUpper_def showNat.simps str_def)
  with h1 h2 h3 show ?thesis by simp
qed

section \<open>Lines with no known mnemonic\<close>

lemma startsWith_single: "startsWith s [c] = (\<exists>rest. s = c # rest)"
  by (cases s) (auto simp: startsWith_def)

lemma checkLine_loop_comment:
  "checkLine uc lineNum (str ''.loop'') = []"
  "checkLine uc lineNum (str ''# comment'') = []"
proof -
  have t1: "trim (str ''.loop'') = str ''.loop''" "tokens (str ''.loop'') = [str ''.loop'']"
    "toUpperCase uc (str ''.loop'') = str ''.LOOP''" "lookupInstruction (str ''.LOOP'') = None"
    "startsWith (str ''.loop'') (str ''.'')"
    by (simp_all add: line_eval startsWith_def)
  have n1: "trim (str ''.loop'') \<noteq> []" by (simp add: t1) (simp add: str_def)
  show "checkLine uc lineNum (str ''.loop'') = []"
    by (simp add: checkLine_unknown [OF n1, where firstPart = "str ''.loop''" and args = "[]"] t1)
  have t2: "trim (str ''# comment'') = str ''# comment''"
    "tokens (str ''# comment'') = [str ''#'', str ''comment'']"
    "toUpperCase uc (str ''#'') = str ''#''" "lookupInstruction (str ''#'') = None"
    "startsWith (str ''#'') (str ''#'')"
    by (simp_all add: line_eval startsWith_def)
  have n2: "trim (str ''# comment'') \<noteq> []" by (simp add: t2) (simp add: str_def)
  show "checkLine uc lineNum (str ''# comment'') = []"
    by (simp add: checkLine_unknown [OF n2, where firstPart = "str ''#''" and args = "[str ''comment'']"] t2)
qed

lemma line_FOO_r1:
  "trim (str ''FOO r1'') = str ''FOO r1''"
  "tokens (str ''FOO r1'') = [str ''FOO'', str ''r1'']"
  "toUpperCase uc (str ''FOO'') = str ''FOO''"
  "lookupInstruction (str ''FOO'') = None"
  by (simp_all add: line_eval)

lemma checkLine_FOO_r1:
  "checkLine uc lineNum (str ''FOO r1'') = [invalidInstruction lineNum (str ''FOO'') (str ''FOO'')]"
proof -
  have n: "trim (str ''FOO r1'') \<noteq> []" by (simp add: line_FOO_r1) (simp add: str_def)
  have "\<not> startsWith (str ''FOO'') (str ''#'')" "\<not> startsWith (str ''FOO'') (str ''.'')"
    "str ''FOO'' \<notin> set metaKeys"
    by (simp_all add: startsWith_def metaKeys_def str_def)
  then show ?thesis
    by (simp add: checkLine_unknown [OF n, where firstPart = "str ''FOO''" and args = "[str ''r1'']"]
        line_FOO_r1)
qed

lemma diagnose_FOO_r1:
  "diagnose uc \<lparr>languageId = l, uri = u, getText = str ''FOO r1'', positionAt = pa\<rparr> =
     [missingKey (str ''meta.name''), missingKey (str ''meta.version''),
      missingKey (str ''meta.author''), invalidInstruction 0 (str ''FOO'') (str ''FOO'')]"
proof -
  have s: "splitLines (str ''FOO r1'') = [str ''FOO r1'']"
    by (simp add: str_def consHead_def)
  have k: "keyLoop (str ''FOO r1'') requiredKeys =
     [missingKey (str ''meta.name''), missingKey (str ''meta.version''),
      missingKey (str ''meta.author'')]"
    by (rule keyLoop_none) (simp_all add: str_def startsWith_def)
  have r: "registerLoop \<lparr>languageId = l, uri = u, getText = str ''FOO r1'', positionAt = pa\<rparr> 0 = []"
    by (simp add: str_def) (simp add: register_eval)
  show ?thesis
    by (simp add: diagnose_one_line [where l = "str ''FOO r1''", OF _ _ r] s k checkLine_FOO_r1)
qed

text \<open>
  What the line check does on a line that is not blank and whose first token, in upper
  case, is no mnemonic of the table: it gives nothing when the first token begins with
  \<open>#\<close> or with \<open>.\<close> or is one of \<open>meta.name\<close>, \<open>meta.version\<close>, \<open>meta.author\<close>, and
  otherwise one finding and nothing else: an Error with the message
  \<open>Invalid instruction:\<close> and the token in upper case. Its span goes from column 0 to
  the length of the first token, which is where the token stands in the trimmed line.
  The lines \<open>.loop\<close> and \<open># comment\<close> have no finding; the line \<open>FOO r1\<close> has one,
  which is the only Error of the document that consists of this line.
\<close>

theorem unknown_mnemonic:
  "(trim raw \<noteq> [] \<and> tokens (trim raw) = firstPart # args
      \<and> lookupInstruction (toUpperCase uc firstPart) = None \<longrightarrow>
    checkLine uc lineNum raw =
      (if (\<exists>rest. firstPart = str ''#'' @ rest) \<or> (\<exists>rest. firstPart = str ''.'' @ rest)
          \<or> firstPart = str ''meta.name'' \<or> firstPart = str ''meta.version''
          \<or> firstPart = str ''meta.author''
       then []
       else [\<lparr>drange = RangeV (Position lineNum 0) (Position lineNum (length firstPart)),
              message = str ''Invalid instruction: '' @ toUpperCase uc firstPart,
              severity = Error, code = None\<rparr>])
    \<and> take (length firstPart) (trim raw) = firstPart)
   \<and> checkLine uc lineNum (str ''.loop'') = []
   \<and> checkLine uc lineNum (str ''# comment'') = []
   \<and> checkLine uc lineNum (str ''FOO r1'') =
      [\<lparr>drange = RangeV (Position lineNum 0) (Position lineNum 3),
        message = str ''Invalid instruction: FOO'', severity = Error, code = None\<rparr>]
   \<and> filter (\<lambda>d. severity d = Error)
        (diagnose uc \<lparr>languageId = l, uri = u, getText = str ''FOO r1'', positionAt = pa\<rparr>) =
      [\<lparr>drange = RangeV (Position 0 0) (Position 0 3),
        message = str ''Invalid instruction: FOO'', severity = Error, code = None\<rparr>]"
proof -
  have c: "(startsWith firstPart (str ''#'') \<or> firstPart \<in> set metaKeys
         \<or> startsWith firstPart (str ''.'')) =
      ((\<exists>rest. firstPart = str ''#'' @ rest) \<or> (\<exists>rest. firstPart = str ''.'' @ rest)
          \<or> firstPart = str ''meta.name'' \<or> firstPart = str ''meta.version''
          \<or> firstPart = str ''meta.author'')"
    by (auto simp: str_def [of "''#''"] str_def [of "''.''"] startsWith_single metaKeys_def)
  have gen: "checkLine uc lineNum raw =
      (if (\<exists>rest. firstPart = str ''#'' @ rest) \<or> (\<exists>rest. firstPart = str ''.'' @ rest)
          \<or> firstPart = str ''meta.name'' \<or> firstPart = str ''meta.version''
          \<or> firstPart = str ''meta.author''
       then []
       else [\<lparr>drange = RangeV (Position lineNum 0) (Position lineNum (length firstPart)),
              message = str ''Invalid instruction: '' @ toUpperCase uc firstPart,
              severity = Error, code = None\<rparr>])
    \<and> take (length firstPart) (trim raw) = firstPart"
    if "trim raw \<noteq> []" and "tokens (trim raw) = firstPart # args"
      and "lookupInstruction (toUpperCase uc firstPart) = None"
    unfolding checkLine_unknown [OF that] c invalidInstruction_record
    using first_token_prefix [OF that(2)] by simp
  have w: "invalidInstruction n (str ''FOO'') (str ''FOO'') =
      \<lparr>drange = RangeV (Position n 0) (Position n 3),
        message = str ''Invalid instruction: FOO'', severity = Error, code = None\<rparr>" for n
    by (simp add: invalidInstruction_record str_def)
  have ex: "checkLine uc lineNum (str ''FOO r1'') =
      [\<lparr>drange = RangeV (Position lineNum 0) (Position lineNum 3),
        message = str ''Invalid instruction: FOO'', severity = Error, code = None\<rparr>]"
    unfolding checkLine_FOO_r1 w ..
  have d: "filter (\<lambda>d. severity d = Error)
        (diagnose uc \<lparr>languageId = l, uri = u, getText = str ''FOO r1'', positionAt = pa\<rparr>) =
      [\<lparr>drange = RangeV (Position 0 0) (Position 0 3),
        message = str ''Invalid instruction: FOO'', severity = Error, code = None\<rparr>]"
    unfolding diagnose_FOO_r1 w missingKey_record by simp
  from gen ex d checkLine_loop_comment [of uc lineNum] show ?thesis by blast
qed

text \<open>
  The line \<open>  foo r1\<close>, with two blanks in front: the finding names \<open>FOO\<close> and spans
  columns 0 to 3, the place of the token in the trimmed line.
\<close>

theorem unknown_mnemonic_witness:
  "trim (str ''  foo r1'') \<noteq> []
   \<and> tokens (trim (str ''  foo r1'')) = [str ''foo'', str ''r1'']
   \<and> lookupInstruction (toUpperCase (\<lambda>s. s) (str ''foo'')) = None
   \<and> checkLine (\<lambda>s. s) 7 (str ''  foo r1'') =
      [\<lparr>drange = RangeV (Position 7 0) (Position 7 3),
        message = str ''Invalid instruction: FOO'', severity = Error, code = None\<rparr>]
   \<and> take 3 (trim (str ''  foo r1'')) = str ''foo''"
proof -
  have tr: "trim (str ''  foo r1'') = str ''foo r1''"
    by (simp add: line_eval)
  have h1: "trim (str ''  foo r1'') \<noteq> []"
    by (simp add: tr) (simp add: str_def)
  have h2: "tokens (trim (str ''  foo r1'')) = str ''foo'' # [str ''r1'']"
    by (simp add: tr) (simp add: line_eval)
  have h3: "lookupInstruction (toUpperCase (\<lambda>s. s) (str ''foo'')) = None"
    by (simp add: line_eval)
  from unknown_mnemonic [where uc = "\<lambda>s. s" and lineNum = 7 and raw = "str ''  foo r1''"
      and firstPart = "str ''foo''" and args = "[str ''r1'']"] h1 h2 h3
  have "checkLine (\<lambda>s. s) 7 (str ''  foo r1'') =
      (if (\<exists>rest. str ''foo'' = str ''#'' @ rest) \<or> (\<exists>rest. str ''foo'' = str ''.'' @ rest)
          \<or> str ''foo'' = str ''meta.name'' \<or> str ''foo'' = str ''meta.version''
          \<or> str ''foo'' = str ''meta.author''
       then []
       else [\<lparr>drange = RangeV (Position 7 0) (Position 7 (length (str ''foo''))),
              message = str ''Invalid instruction: '' @ toUpperCase (\<lambda>s. s) (str ''foo''),
              severity = Error, code = None\<rparr>])
    \<and> take (length (str ''foo'')) (trim (str ''  foo r1'')) = str ''foo''"
    by simp
  then have "checkLine (\<lambda>s. s) 7 (str ''  foo r1'') =
      [\<lparr>drange = RangeV (Position 7 0) (Position 7 3),
        message = str ''Invalid instruction: FOO'', severity = Error, code = None\<rparr>]
   \<and> take 3 (trim (str ''  foo r1'')) = str ''foo''"
    by (simp add: str_def toUpperCase_def asciiUpper_def trim_def isSpace_def)
  with h1 h2 h3 show ?thesis by simp
qed

section \<open>The line MOV r1 5\<close>

lemma line_MOV_r1_5:
  "trim (str ''MOV r1 5'') = str ''MOV r1 5''"
  "tokens (str ''MOV r1 5'') = [str ''MOV'', str ''r1'', str ''5'']"
  by (simp_all add: line_eval)

lemma checkLine_MOV_r1_5:
  "checkLine uc lineNum (str ''MOV r1 5'') =
     [invalidArgument lineNum (str ''MOV r1 5'') (str ''MOV'') [Reg] (str ''5'')]"
proof -
  have "trim (str ''MOV r1 5'') \<noteq> []"
    by (simp add: line_MOV_r1_5) (simp add: str_def)
  then have "checkLine uc lineNum (str ''MOV r1 5'') =
      argLoop lineNum (str ''MOV r1 5'') (str ''MOV'') [[Reg, Num], [Reg]] [str ''r1'', str ''5'']"
    by (simp add: checkLine_known [where firstPart = "str ''MOV''"
          and args = "[str ''r1'', str ''5'']" and signature = "[[Reg, Num], [Reg]]"]
        line_MOV_r1_5 line_MOV_r99_r1)
  also have "\<dots> = [invalidArgument lineNum (str ''MOV r1 5'') (str ''MOV'') [Reg] (str ''5'')]"
    by (simp add: argLoop_zip checkArg_iff kindTest_def testReg_def)
      (simp add: str_def isDigit_def)
  finally show ?thesis .
qed

lemma diagnose_MOV_r1_5:
  "diagnose uc \<lparr>languageId = l, uri = u, getText = str ''MOV r1 5'', positionAt = pa\<rparr> =
     [\<lparr>drange = RangeV (Position 0 0) (Position 0 0),
       message = str ''Missing key: meta.name'', severity = Information,
       code = Some (str ''missing_meta.name'')\<rparr>,
      \<lparr>drange = RangeV (Position 0 0) (Position 0 0),
       message = str ''Missing key: meta.version'', severity = Information,
       code = Some (str ''missing_meta.version'')\<rparr>,
      \<lparr>drange = RangeV (Position 0 0) (Position 0 0),
       message = str ''Missing key: meta.author'', severity = Information,
       code = Some (str ''missing_meta.author'')\<rparr>,
      \<lparr>drange = RangeV (Position 0 0) (Position 0 8),
       message = str ''Invalid argument '' @ [39] @ str ''5'' @ [39]
         @ str '' for MOV. Expected: Reg'',
       severity = Error, code = None\<rparr>]"
proof -
  have s: "splitLines (str ''MOV r1 5'') = [str ''MOV r1 5'']"
    by (simp add: str_def consHead_def)
  have k: "keyLoop (str ''MOV r1 5'') requiredKeys =
     [missingKey (str ''meta.name''), missingKey (str ''meta.version''),
      missingKey (str ''meta.author'')]"
    by (rule keyLoop_none) (simp_all add: str_def startsWith_def)
  have r: "registerLoop \<lparr>languageId = l, uri = u, getText = str ''MOV r1 5'', positionAt = pa\<rparr> 0 = []"
    by (simp add: str_def) (simp add: register_eval)
  have "diagnose uc \<lparr>languageId = l, uri = u, getText = str ''MOV r1 5'', positionAt = pa\<rparr> =
     [missingKey (str ''meta.name''), missingKey (str ''meta.version''),
      missingKey (str ''meta.author''),
      invalidArgument 0 (str ''MOV r1 5'') (str ''MOV'') [Reg] (str ''5'')]"
    by (simp add: diagnose_one_line [where l = "str ''MOV r1 5''", OF _ _ r] s k checkLine_MOV_r1_5)
  then show ?thesis
    unfolding missingKey_record invalidArgument_record
    by (simp add: kindName_def str_def)
qed

text \<open>
  C1, as the code has it: the document that consists of the line \<open>MOV r1 5\<close> has four
  findings, whatever its language, URI and positions: the three Info findings for the
  missing meta keys and one Error for the operand \<open>5\<close>, since the second slot of \<open>MOV\<close>
  takes a register only.
\<close>

theorem mov_r1_5_findings:
  "diagnose uc \<lparr>languageId = l, uri = u, getText = str ''MOV r1 5'', positionAt = pa\<rparr> =
     [\<lparr>drange = RangeV (Position 0 0) (Position 0 0),
       message = str ''Missing key: meta.name'', severity = Information,
       code = Some (str ''missing_meta.name'')\<rparr>,
      \<lparr>drange = RangeV (Position 0 0) (Position 0 0),
       message = str ''Missing key: meta.version'', severity = Information,
       code = Some (str ''missing_meta.version'')\<rparr>,
      \<lparr>drange = RangeV (Position 0 0) (Position 0 0),
       message = str ''Missing key: meta.author'', severity = Information,
       code = Some (str ''missing_meta.author'')\<rparr>,
      \<lparr>drange = RangeV (Position 0 0) (Position 0 8),
       message = str ''Invalid argument '' @ [39] @ str ''5'' @ [39]
         @ str '' for MOV. Expected: Reg'',
       severity = Error, code = None\<rparr>]
   \<and> lookupInstruction (str ''MOV'') = Some [[Reg, Num], [Reg]]"
  by (simp add: diagnose_MOV_r1_5 line_MOV_r99_r1)

text \<open>
  C1 as stated fails: in a Carnival document with the text \<open>MOV r1 5\<close> (with the
  positions of a document of one line) the number of findings is not 0, and the line
  check alone gives a finding.
\<close>

theorem mov_r1_5_not_clean:
  "length (diagnose (\<lambda>s. s) \<lparr>languageId = str ''carnival'', uri = str ''prog.cnvl'',
       getText = str ''MOV r1 5'', positionAt = (\<lambda>offset. Position 0 offset)\<rparr>) \<noteq> 0
   \<and> checkLine (\<lambda>s. s) 0 (str ''MOV r1 5'') \<noteq> []"
  by (simp add: diagnose_MOV_r1_5 checkLine_MOV_r1_5)

section \<open>Completions\<close>

lemma toLowerCase_keys:
  "map (toLowerCase lc) (map fst INSTRUCTIONS) = map (map asciiLower) (map fst INSTRUCTIONS)"
  unfolding INSTRUCTIONS_keys by (simp add: toLowerCase_def str_def)

text \<open>
  C9: whatever the document and the position (and whatever the case tables beyond
  ASCII), \<open>provideCompletionItems\<close> returns the same list: one item for each entry of
  \<open>INSTRUCTIONS\<close>, in the order of the table, with the mnemonic in lower case as label
  and as inserted text, the kind \<open>Keyword\<close> and the detail \<open>Carnival instruction\<close>.
\<close>

theorem completions_fixed:
  "provideCompletionItems lc doc pos =
     map (\<lambda>k. \<lparr>label = map asciiLower k, ckind = Keyword,
                insertText = Some (map asciiLower k),
                detail = Some (str ''Carnival instruction'')\<rparr>) (map fst INSTRUCTIONS)
   \<and> length (provideCompletionItems lc doc pos) = length INSTRUCTIONS
   \<and> map label (provideCompletionItems lc doc pos) =
      [str ''mov'', str ''lod'', str ''str'', str ''psh'', str ''pop'', str ''add'',
       str ''sub'', str ''mod'', str ''xor'', str ''and'', str ''not'', str ''or'',
       str ''jmp'', str ''cal'', str ''ret'', str ''brz'', str ''bnz'', str ''in'',
       str ''out'', str ''gip'', str ''hlt'', str ''brg'', str ''bng'', str ''brl'',
       str ''bnl'']
   \<and> provideCompletionItems lc doc pos = provideCompletionItems lc' doc' pos'"
proof -
  have a: "provideCompletionItems lc doc pos =
     map (\<lambda>k. \<lparr>label = map asciiLower k, ckind = Keyword,
                insertText = Some (map asciiLower k),
                detail = Some (str ''Carnival instruction'')\<rparr>) (map fst INSTRUCTIONS)"
    for lc doc pos
    unfolding provideCompletionItems_def toLowerCase_keys by (simp add: comp_def)
  have b: "map label (provideCompletionItems lc doc pos) =
      [str ''mov'', str ''lod'', str ''str'', str ''psh'', str ''pop'', str ''add'',
       str ''sub'', str ''mod'', str ''xor'', str ''and'', str ''not'', str ''or'',
       str ''jmp'', str ''cal'', str ''ret'', str ''brz'', str ''bnz'', str ''in'',
       str ''out'', str ''gip'', str ''hlt'', str ''brg'', str ''bng'', str ''brl'',
       str ''bnl'']"
    unfolding a INSTRUCTIONS_keys by (simp add: str_def asciiLower_def)
  have c: "length (provideCompletionItems lc doc pos) = length INSTRUCTIONS"
    unfolding a by simp
  have d: "provideCompletionItems lc doc pos = provideCompletionItems lc' doc' pos'"
    unfolding a ..
  from a b c d show ?thesis by blast
qed

section \<open>The required meta keys\<close>

lemma includes_js_iff: "includes_js t k = isSubstring k t"
proof (induction t)
  case Nil
  show ?case by (auto simp: isSubstring_def)
next
  case (Cons c cs)
  show ?case
  proof
    assume "includes_js (c # cs) k"
    then consider "startsWith (c # cs) k" | "isSubstring k cs"
      using Cons.IH by auto
    then show "isSubstring k (c # cs)"
    proof cases
      case 1
      then have "c # cs = [] @ k @ drop (length k) (c # cs)"
        by (metis append_Nil append_take_drop_id startsWith_def)
      then show ?thesis unfolding isSubstring_def by blast
    next
      case 2
      then obtain pre post where "cs = pre @ k @ post"
        unfolding isSubstring_def by blast
      then have "c # cs = (c # pre) @ k @ post" by simp
      then show ?thesis unfolding isSubstring_def by blast
    qed
  next
    assume "isSubstring k (c # cs)"
    then obtain pre post where p: "c # cs = pre @ k @ post"
      unfolding isSubstring_def by blast
    show "includes_js (c # cs) k"
    proof (cases pre)
      case Nil
      with p have "startsWith (c # cs) k" by (simp add: startsWith_def)
      then show ?thesis by simp
    next
      case (Cons a pre')
      with p have "cs = pre' @ k @ post" by simp
      then have "isSubstring k cs" unfolding isSubstring_def by blast
      with Cons.IH show ?thesis by simp
    qed
  qed
qed

lemma keyLoop_filter:
  "keyLoop t keys = map missingKey (filter (\<lambda>k. \<not> isSubstring k t) keys)"
  by (induction keys) (simp_all add: includes_js_iff)

lemma registerLoop_Error:
  "d \<in> set (registerLoop doc k) \<Longrightarrow> severity d = Error"
proof (induction doc k rule: registerLoop.induct)
  case (1 doc lastIndex)
  show ?case
  proof (cases "execRegister (getText doc) lastIndex")
    case None
    with "1.prems" show ?thesis by (simp add: registerLoop.simps [of doc lastIndex])
  next
    case (Some p)
    obtain index n where p: "p = (index, n)" by (cases p)
    from "1.prems" Some p
    have "d = invalidRegister doc index (take n (drop index (getText doc)))
        \<or> d \<in> set (registerLoop doc (index + n))"
      by (auto simp: registerLoop.simps [of doc lastIndex] Let_def split: if_splits)
    then show ?thesis
    proof
      assume "d = invalidRegister doc index (take n (drop index (getText doc)))"
      then show ?thesis by (simp add: invalidRegister_def newDiagnostic_def)
    next
      assume "d \<in> set (registerLoop doc (index + n))"
      with "1.IH" [OF Some p [symmetric] refl refl] show ?thesis by simp
    qed
  qed
qed

lemma checkLine_Error:
  "d \<in> set (checkLine uc n raw) \<Longrightarrow> severity d = Error"
  by (auto simp: checkLine_def Let_def argLoop_def checkArg_def invalidInstruction_record
      wrongArity_record invalidArgument_record
      split: if_splits option.splits list.splits)

lemma lineLoop_Error:
  "d \<in> set (lineLoop uc ls) \<Longrightarrow> severity d = Error"
  by (auto simp: lineLoop_def dest: checkLine_Error)

lemma filter_Information:
  "filter (\<lambda>d. severity d = Information) (diagnose uc doc) = keyLoop (getText doc) requiredKeys"
proof -
  have 1: "filter (\<lambda>d. severity d = Information) (keyLoop t ks) = keyLoop t ks" for t ks
    by (induction ks) (simp_all add: missingKey_record)
  have 2: "filter (\<lambda>d. severity d = Information) (registerLoop doc 0) = []"
    by (auto simp: filter_empty_conv dest: registerLoop_Error)
  have 3: "filter (\<lambda>d. severity d = Information) (lineLoop uc (splitLines (getText doc))) = []"
    by (auto simp: filter_empty_conv dest: lineLoop_Error)
  show ?thesis by (simp add: diagnose_def 1 2 3)
qed

text \<open>
  C7: Check A looks for the three keys as substrings of the whole text, and gives one
  finding for each key that does not occur. When none of the three occurs, the Info
  findings of the document are three, for name, version and author in this order, at
  position (0,0), with the codes \<open>missing_meta.name\<close>, \<open>missing_meta.version\<close> and
  \<open>missing_meta.author\<close>, and they are the first three findings. When all three occur,
  wherever in the text, Check A gives nothing and the document has no Info finding.
\<close>

theorem meta_keys_check:
  "keyLoop (getText doc) requiredKeys =
     map missingKey (filter (\<lambda>k. \<not> isSubstring k (getText doc))
       [str ''meta.name'', str ''meta.version'', str ''meta.author''])
   \<and> (\<not> isSubstring (str ''meta.name'') (getText doc)
        \<and> \<not> isSubstring (str ''meta.version'') (getText doc)
        \<and> \<not> isSubstring (str ''meta.author'') (getText doc) \<longrightarrow>
      filter (\<lambda>d. severity d = Information) (diagnose uc doc) =
        [\<lparr>drange = RangeV (Position 0 0) (Position 0 0),
          message = str ''Missing key: meta.name'', severity = Information,
          code = Some (str ''missing_meta.name'')\<rparr>,
         \<lparr>drange = RangeV (Position 0 0) (Position 0 0),
          message = str ''Missing key: meta.version'', severity = Information,
          code = Some (str ''missing_meta.version'')\<rparr>,
         \<lparr>drange = RangeV (Position 0 0) (Position 0 0),
          message = str ''Missing key: meta.author'', severity = Information,
          code = Some (str ''missing_meta.author'')\<rparr>]
      \<and> take 3 (diagnose uc doc) = filter (\<lambda>d. severity d = Information) (diagnose uc doc))
   \<and> (isSubstring (str ''meta.name'') (getText doc)
        \<and> isSubstring (str ''meta.version'') (getText doc)
        \<and> isSubstring (str ''meta.author'') (getText doc) \<longrightarrow>
      keyLoop (getText doc) requiredKeys = []
      \<and> filter (\<lambda>d. severity d = Information) (diagnose uc doc) = [])"
proof -
  have m: "missingKey (str k) =
      \<lparr>drange = RangeV (Position 0 0) (Position 0 0),
       message = str (''Missing key: '' @ k), severity = Information,
       code = Some (str (''missing_'' @ k))\<rparr>" for k
    by (simp add: missingKey_record str_def)
  have a: "keyLoop (getText doc) requiredKeys =
     map missingKey (filter (\<lambda>k. \<not> isSubstring k (getText doc))
       [str ''meta.name'', str ''meta.version'', str ''meta.author''])"
    by (simp only: keyLoop_filter requiredKeys_def)
  have t: "take 3 (diagnose uc doc) = keyLoop (getText doc) requiredKeys"
    if "length (keyLoop (getText doc) requiredKeys) = 3"
    using that by (simp add: diagnose_def)
  show ?thesis
    unfolding filter_Information
    using t by (simp add: a m)
qed

theorem meta_keys_check_witness:
  "\<not> isSubstring (str ''meta.name'') (str ''MOV 5 r1'')
   \<and> \<not> isSubstring (str ''meta.version'') (str ''MOV 5 r1'')
   \<and> \<not> isSubstring (str ''meta.author'') (str ''MOV 5 r1'')
   \<and> length (filter (\<lambda>d. severity d = Information)
        (diagnose (\<lambda>s. s) \<lparr>languageId = str ''carnival'', uri = str ''prog.cnvl'',
           getText = str ''MOV 5 r1'', positionAt = (\<lambda>offset. Position 0 offset)\<rparr>)) = 3
   \<and> isSubstring (str ''meta.name'') (str ''# meta.name meta.version meta.author'')
   \<and> isSubstring (str ''meta.version'') (str ''# meta.name meta.version meta.author'')
   \<and> isSubstring (str ''meta.author'') (str ''# meta.name meta.version meta.author'')
   \<and> filter (\<lambda>d. severity d = Information)
        (diagnose (\<lambda>s. s) \<lparr>languageId = str ''carnival'', uri = str ''prog.cnvl'',
           getText = str ''# meta.name meta.version meta.author'',
           positionAt = (\<lambda>offset. Position 0 offset)\<rparr>) = []"
proof -
  have n: "\<not> isSubstring (str ''meta.name'') (str ''MOV 5 r1'')"
    "\<not> isSubstring (str ''meta.version'') (str ''MOV 5 r1'')"
    "\<not> isSubstring (str ''meta.author'') (str ''MOV 5 r1'')"
    unfolding includes_js_iff [symmetric] by (simp_all add: str_def startsWith_def)
  have y: "isSubstring (str ''meta.name'') (str ''# meta.name meta.version meta.author'')"
    "isSubstring (str ''meta.version'') (str ''# meta.name meta.version meta.author'')"
    "isSubstring (str ''meta.author'') (str ''# meta.name meta.version meta.author'')"
    unfolding includes_js_iff [symmetric] by (simp_all add: str_def startsWith_def)
  from n meta_keys_check [where uc = "\<lambda>s. s" and doc = "\<lparr>languageId = str ''carnival'',
      uri = str ''prog.cnvl'', getText = str ''MOV 5 r1'',
      positionAt = (\<lambda>offset. Position 0 offset)\<rparr>"]
  have a: "length (filter (\<lambda>d. severity d = Information)
        (diagnose (\<lambda>s. s) \<lparr>languageId = str ''carnival'', uri = str ''prog.cnvl'',
           getText = str ''MOV 5 r1'', positionAt = (\<lambda>offset. Position 0 offset)\<rparr>)) = 3"
    by simp
  from y meta_keys_check [where uc = "\<lambda>s. s" and doc = "\<lparr>languageId = str ''carnival'',
      uri = str ''prog.cnvl'', getText = str ''# meta.name meta.version meta.author'',
      positionAt = (\<lambda>offset. Position 0 offset)\<rparr>"]
  have b: "filter (\<lambda>d. severity d = Information)
        (diagnose (\<lambda>s. s) \<lparr>languageId = str ''carnival'', uri = str ''prog.cnvl'',
           getText = str ''# meta.name meta.version meta.author'',
           positionAt = (\<lambda>offset. Position 0 offset)\<rparr>) = []"
    by simp
  from n y a b show ?thesis by simp
qed

section \<open>The register scan\<close>

lemma slice2:
  assumes "i + 2 \<le> length t"
  shows "take 2 (drop i t) = [t ! i, t ! (i + 1)]"
proof -
  have "drop i t = t ! i # drop (Suc i) t"
    using assms by (simp add: Cons_nth_drop_Suc)
  moreover have "drop (Suc i) t = t ! (Suc i) # drop (Suc (Suc i)) t"
    using assms by (simp add: Cons_nth_drop_Suc)
  ultimately show ?thesis by (simp add: numeral_2_eq_2)
qed

lemma slice3:
  assumes "i + 3 \<le> length t"
  shows "take 3 (drop i t) = [t ! i, t ! (i + 1), t ! (i + 2)]"
proof -
  have "drop i t = t ! i # drop (Suc i) t"
    using assms by (simp add: Cons_nth_drop_Suc)
  moreover have "drop (Suc i) t = t ! (Suc i) # drop (Suc (Suc i)) t"
    using assms by (simp add: Cons_nth_drop_Suc)
  moreover have "drop (Suc (Suc i)) t = t ! (Suc (Suc i)) # drop (Suc (Suc (Suc i))) t"
    using assms by (simp add: Cons_nth_drop_Suc)
  ultimately show ?thesis by (simp add: numeral_3_eq_3)
qed

lemma testReg_length: "testReg a \<Longrightarrow> length a = 2 \<or> length a = 3"
  by (cases a) (auto simp: testReg_def)

lemma registerTokenAt_length:
  "registerTokenAt t i n \<Longrightarrow> n = 2 \<or> n = 3"
  by (auto simp: registerTokenAt_def dest!: testReg_length)

lemma isWord_digit: "isDigit c \<Longrightarrow> isWord c"
  by (simp add: isWord_def)

lemma isWord_r: "c = 114 \<or> c = 82 \<Longrightarrow> isWord c"
  by (auto simp: isWord_def isLetter_def)

lemma digit_not_r: "isDigit c \<Longrightarrow> \<not> (c = 114 \<or> c = 82)"
  by (auto simp: isDigit_def)

lemma wordBoundary_begin:
  "i < length t \<Longrightarrow> isWord (t ! i) \<Longrightarrow>
     wordBoundary t i = (i = 0 \<or> \<not> isWord (t ! (i - 1)))"
  by (cases i) (auto simp: wordBoundary_def wordAt_def)

lemma wordBoundary_end:
  "j < length t \<Longrightarrow> isWord (t ! j) \<Longrightarrow>
     wordBoundary t (Suc j) = (Suc j = length t \<or> \<not> isWord (t ! Suc j))"
  by (auto simp: wordBoundary_def wordAt_def)

lemma testReg2: "testReg [c, d] = ((c = 114 \<or> c = 82) \<and> isDigit d)"
  by (simp add: testReg_def)

lemma testReg3: "testReg [c, d, e] = ((c = 114 \<or> c = 82) \<and> isDigit d \<and> isDigit e)"
  by (simp add: testReg_def)

lemma matchRegisterAt_cases:
  "matchRegisterAt t i = Some n \<longleftrightarrow>
     wordBoundary t i \<and> i < length t \<and> (t ! i = 114 \<or> t ! i = 82) \<and> digitAt t (i + 1)
     \<and> ((n = 3 \<and> digitAt t (i + 2) \<and> wordBoundary t (i + 3))
        \<or> (n = 2 \<and> wordBoundary t (i + 2) \<and> \<not> (digitAt t (i + 2) \<and> wordBoundary t (i + 3))))"
  by (cases "wordBoundary t i \<and> i < length t \<and> (t ! i = 114 \<or> t ! i = 82) \<and> digitAt t (i + 1)";
      cases "digitAt t (i + 2) \<and> wordBoundary t (i + 3)"; cases "wordBoundary t (i + 2)")
    (auto simp: matchRegisterAt_def)

lemma registerTokenAt2:
  "registerTokenAt t i 2 \<longleftrightarrow>
     i + 2 \<le> length t \<and> (t ! i = 114 \<or> t ! i = 82) \<and> isDigit (t ! (i + 1))
     \<and> (i = 0 \<or> \<not> isWord (t ! (i - 1)))
     \<and> (i + 2 = length t \<or> \<not> isWord (t ! (i + 2)))"
proof -
  have "testReg (take 2 (drop i t)) = ((t ! i = 114 \<or> t ! i = 82) \<and> isDigit (t ! (i + 1)))"
    if "i + 2 \<le> length t"
    by (simp only: slice2 [OF that] testReg2)
  then show ?thesis unfolding registerTokenAt_def by blast
qed

lemma registerTokenAt3:
  "registerTokenAt t i 3 \<longleftrightarrow>
     i + 3 \<le> length t \<and> (t ! i = 114 \<or> t ! i = 82) \<and> isDigit (t ! (i + 1))
     \<and> isDigit (t ! (i + 2))
     \<and> (i = 0 \<or> \<not> isWord (t ! (i - 1)))
     \<and> (i + 3 = length t \<or> \<not> isWord (t ! (i + 3)))"
proof -
  have "testReg (take 3 (drop i t)) =
      ((t ! i = 114 \<or> t ! i = 82) \<and> isDigit (t ! (i + 1)) \<and> isDigit (t ! (i + 2)))"
    if "i + 3 \<le> length t"
    by (simp only: slice3 [OF that] testReg3)
  then show ?thesis unfolding registerTokenAt_def by blast
qed


lemma matchRegisterAt_iff:
  "matchRegisterAt t i = Some n \<longleftrightarrow> registerTokenAt t i n"
proof
  assume "matchRegisterAt t i = Some n"
  then have b0: "wordBoundary t i" and l: "i < length t"
    and c: "t ! i = 114 \<or> t ! i = 82" and d1: "digitAt t (i + 1)"
    and alt: "(n = 3 \<and> digitAt t (i + 2) \<and> wordBoundary t (i + 3))
        \<or> (n = 2 \<and> wordBoundary t (i + 2))"
    unfolding matchRegisterAt_cases by blast+
  from b0 l c have before: "i = 0 \<or> \<not> isWord (t ! (i - 1))"
    by (simp add: wordBoundary_begin isWord_r)
  from d1 have l1: "i + 1 < length t" and g1: "isDigit (t ! (i + 1))"
    by (simp_all add: digitAt_def)
  from alt show "registerTokenAt t i n"
  proof
    assume a: "n = 3 \<and> digitAt t (i + 2) \<and> wordBoundary t (i + 3)"
    then have l2: "i + 2 < length t" and g2: "isDigit (t ! (i + 2))"
      by (simp_all add: digitAt_def)
    from a have "wordBoundary t (Suc (i + 2))" by (simp add: numeral_3_eq_3)
    with l2 g2 have "Suc (i + 2) = length t \<or> \<not> isWord (t ! Suc (i + 2))"
      by (simp add: wordBoundary_end isWord_digit)
    then have "i + 3 = length t \<or> \<not> isWord (t ! (i + 3))"
      by (simp add: numeral_3_eq_3)
    with a c g1 g2 l2 before show ?thesis
      unfolding registerTokenAt3 by (simp add: registerTokenAt3)
  next
    assume a: "n = 2 \<and> wordBoundary t (i + 2)"
    then have "wordBoundary t (Suc (i + 1))" by simp
    with l1 g1 have "Suc (i + 1) = length t \<or> \<not> isWord (t ! Suc (i + 1))"
      by (simp add: wordBoundary_end isWord_digit)
    then have "i + 2 = length t \<or> \<not> isWord (t ! (i + 2))"
      by simp
    with a c g1 l1 before show ?thesis
      by (simp add: registerTokenAt2)
  qed
next
  assume r: "registerTokenAt t i n"
  from registerTokenAt_length [OF r] show "matchRegisterAt t i = Some n"
  proof
    assume n: "n = 2"
    with r have "registerTokenAt t i 2" by simp
    then have le: "i + 2 \<le> length t" and c: "t ! i = 114 \<or> t ! i = 82"
      and g1: "isDigit (t ! (i + 1))" and before: "i = 0 \<or> \<not> isWord (t ! (i - 1))"
      and after: "i + 2 = length t \<or> \<not> isWord (t ! (i + 2))"
      unfolding registerTokenAt2 by blast+
    from le have l: "i < length t" and l1: "i + 1 < length t" by simp_all
    from l c before have b0: "wordBoundary t i"
      by (simp add: wordBoundary_begin isWord_r)
    from l1 g1 have d1: "digitAt t (i + 1)" by (simp add: digitAt_def)
    from l1 g1 after have "wordBoundary t (Suc (i + 1))"
      by (simp add: wordBoundary_end isWord_digit)
    then have b2: "wordBoundary t (i + 2)" by simp
    from after have nd: "\<not> digitAt t (i + 2)"
      by (auto simp: digitAt_def dest: isWord_digit)
    from b0 l c d1 b2 nd n show ?thesis
      unfolding matchRegisterAt_cases by blast
  next
    assume n: "n = 3"
    with r have "registerTokenAt t i 3" by simp
    then have le: "i + 3 \<le> length t" and c: "t ! i = 114 \<or> t ! i = 82"
      and g1: "isDigit (t ! (i + 1))" and g2: "isDigit (t ! (i + 2))"
      and before: "i = 0 \<or> \<not> isWord (t ! (i - 1))"
      and after: "i + 3 = length t \<or> \<not> isWord (t ! (i + 3))"
      unfolding registerTokenAt3 by blast+
    from le have l: "i < length t" and l1: "i + 1 < length t" and l2: "i + 2 < length t"
      by simp_all
    from l c before have b0: "wordBoundary t i"
      by (simp add: wordBoundary_begin isWord_r)
    from l1 g1 have d1: "digitAt t (i + 1)" by (simp add: digitAt_def)
    from l2 g2 have d2: "digitAt t (i + 2)" by (simp add: digitAt_def)
    from after have "Suc (i + 2) = length t \<or> \<not> isWord (t ! Suc (i + 2))"
      by (simp add: numeral_3_eq_3)
    with l2 g2 have "wordBoundary t (Suc (i + 2))"
      by (simp add: wordBoundary_end isWord_digit)
    then have b3: "wordBoundary t (i + 3)" by (simp add: numeral_3_eq_3)
    from b0 l c d1 d2 b3 n show ?thesis
      unfolding matchRegisterAt_cases by blast
  qed
qed

lemma matchRegisterAt_not_r:
  "\<not> (t ! j = 114 \<or> t ! j = 82) \<Longrightarrow> matchRegisterAt t j = None"
  by (simp add: matchRegisterAt_def)

lemma matchRegisterAt_beyond:
  "length t \<le> j \<Longrightarrow> matchRegisterAt t j = None"
  by (simp add: matchRegisterAt_def)

lemma matchRegisterAt_inside:
  assumes "matchRegisterAt t i = Some n" and "i < j" and "j < i + n"
  shows "matchRegisterAt t j = None"
proof -
  from assms(1) have r: "registerTokenAt t i n" by (simp add: matchRegisterAt_iff)
  from registerTokenAt_length [OF r] have "isDigit (t ! j)"
  proof
    assume "n = 2"
    with assms(2,3) have "j = i + 1" by simp
    with r \<open>n = 2\<close> show ?thesis by (simp add: registerTokenAt2)
  next
    assume "n = 3"
    with assms(2,3) have "j = i + 1 \<or> j = i + 2" by auto
    with r \<open>n = 3\<close> show ?thesis by (auto simp: registerTokenAt3)
  qed
  then show ?thesis by (intro matchRegisterAt_not_r digit_not_r)
qed

lemma execRegister_None:
  "execRegister t k = None \<Longrightarrow> k \<le> i \<Longrightarrow> matchRegisterAt t i = None"
proof (induction t k rule: execRegister.induct)
  case (1 t k)
  show ?case
  proof (cases "length t < k")
    case True
    with "1.prems" show ?thesis by (simp add: matchRegisterAt_beyond)
  next
    case False
    with "1.prems" have m: "matchRegisterAt t k = None" and e: "execRegister t (k + 1) = None"
      by (simp_all add: execRegister.simps [of t k] split: option.splits)
    show ?thesis
    proof (cases "i = k")
      case True
      with m show ?thesis by simp
    next
      case ne: False
      with "1.prems" have "k + 1 \<le> i" by simp
      with "1.IH" [OF False m e] show ?thesis .
    qed
  qed
qed

lemma execRegister_first:
  "execRegister t k = Some (index, n) \<Longrightarrow> k \<le> i \<Longrightarrow> i < index
     \<Longrightarrow> matchRegisterAt t i = None"
proof (induction t k rule: execRegister.induct)
  case (1 t k)
  from "1.prems" have le: "\<not> length t < k"
    by (simp add: execRegister.simps [of t k] split: if_splits)
  show ?case
  proof (cases "matchRegisterAt t k")
    case None
    with "1.prems" le have e: "execRegister t (k + 1) = Some (index, n)"
      by (simp add: execRegister.simps [of t k])
    show ?thesis
    proof (cases "i = k")
      case True
      with None show ?thesis by simp
    next
      case False
      with "1.prems" have "k + 1 \<le> i" by simp
      with "1.IH" [OF le None e] "1.prems" show ?thesis by simp
    qed
  next
    case (Some m)
    with "1.prems" le have "index = k"
      by (simp add: execRegister.simps [of t k])
    with "1.prems" show ?thesis by simp
  qed
qed

lemma concat_map_Nil: "(\<And>x. x \<in> set xs \<Longrightarrow> f x = []) \<Longrightarrow> concat (map f xs) = []"
  by (induction xs) simp_all

lemma upt_split: "i \<le> j \<Longrightarrow> j \<le> m \<Longrightarrow> [i ..< m] = [i ..< j] @ [j ..< m]"
  using upt_add_eq_append [of i j "m - j"] by simp

lemma registerLoop_scan:
  "registerLoop doc k = concat (map (registerFindingAt doc) [k ..< length (getText doc)])"
proof (induction doc k rule: registerLoop.induct)
  case (1 doc k)
  let ?t = "getText doc"
  show ?case
  proof (cases "execRegister ?t k")
    case None
    have "concat (map (registerFindingAt doc) [k ..< length ?t]) = []"
      by (rule concat_map_Nil) (simp add: registerFindingAt_def execRegister_None [OF None])
    with None show ?thesis by (simp add: registerLoop.simps [of doc k])
  next
    case (Some p)
    obtain index n where p: "p = (index, n)" by (cases p)
    with Some have e: "execRegister ?t k = Some (index, n)" by simp
    from execRegister_bounds [OF e] have ki: "k \<le> index" and m: "matchRegisterAt ?t index = Some n"
      by simp_all
    from matchRegisterAt_length [OF m] have n: "0 < n" and le: "index + n \<le> length ?t"
      by auto
    have loop: "registerLoop doc k = registerFindingAt doc index @ registerLoop doc (index + n)"
      using e m by (simp add: registerLoop.simps [of doc k] registerFindingAt_def Let_def)
    have ih: "registerLoop doc (index + n) =
        concat (map (registerFindingAt doc) [index + n ..< length ?t])"
      by (rule "1.IH" [OF Some p [symmetric] refl refl])
    have a: "concat (map (registerFindingAt doc) [k ..< index]) = []"
      by (rule concat_map_Nil) (simp add: registerFindingAt_def execRegister_first [OF e])
    have b: "concat (map (registerFindingAt doc) [Suc index ..< index + n]) = []"
      by (rule concat_map_Nil) (simp add: registerFindingAt_def matchRegisterAt_inside [OF m])
    have "[k ..< length ?t] = [k ..< index] @ [index ..< length ?t]"
      by (rule upt_split) (use ki le in simp_all)
    moreover have "[index ..< length ?t] = [index ..< index + n] @ [index + n ..< length ?t]"
      by (rule upt_split) (use le in simp_all)
    moreover have "[index ..< index + n] = index # [Suc index ..< index + n]"
      using n by (simp add: upt_conv_Cons)
    ultimately have "concat (map (registerFindingAt doc) [k ..< length ?t]) =
        concat (map (registerFindingAt doc) [k ..< index]) @ registerFindingAt doc index
        @ concat (map (registerFindingAt doc) [Suc index ..< index + n])
        @ concat (map (registerFindingAt doc) [index + n ..< length ?t])"
      by (simp only: map_append concat_append list.map concat.simps append_assoc)
    then show ?thesis
      by (simp only: loop ih a b append_Nil)
  qed
qed

lemma invalidRegister_record:
  "invalidRegister doc i m1 =
     \<lparr>drange = RangeV (positionAt doc i) (positionAt doc (i + length m1)),
      message = str ''Invalid register: '' @ m1, severity = Error, code = None\<rparr>"
  by (simp add: invalidRegister_def newDiagnostic_def)

lemma registerTokenAt_unique:
  "registerTokenAt t i n \<Longrightarrow> registerTokenAt t i n' \<Longrightarrow> n = n'"
  by (metis matchRegisterAt_iff option.inject)

lemma registerFindingAt_token:
  assumes "registerTokenAt (getText doc) i n"
  shows "registerFindingAt doc i =
     (if outOfRange (parseInt (drop 1 (take n (drop i (getText doc)))))
      then [\<lparr>drange = RangeV (positionAt doc i) (positionAt doc (i + n)),
             message = str ''Invalid register: '' @ take n (drop i (getText doc)),
             severity = Error, code = None\<rparr>]
      else [])"
proof -
  from assms have m: "matchRegisterAt (getText doc) i = Some n"
    by (simp add: matchRegisterAt_iff)
  from matchRegisterAt_length [OF m] have "length (take n (drop i (getText doc))) = n"
    by auto
  with m show ?thesis
    by (simp add: registerFindingAt_def invalidRegister_record)
qed

lemma registerFindingAt_no_token:
  assumes "\<And>n. \<not> registerTokenAt (getText doc) i n"
  shows "registerFindingAt doc i = []"
proof -
  from assms have "matchRegisterAt (getText doc) i = None"
    by (cases "matchRegisterAt (getText doc) i") (auto simp: matchRegisterAt_iff)
  then show ?thesis by (simp add: registerFindingAt_def)
qed

lemma registerLoop_set:
  "set (registerLoop doc 0) = (\<Union>i \<in> {..< length (getText doc)}. set (registerFindingAt doc i))"
  unfolding registerLoop_scan by (auto simp: atLeast0LessThan)

lemma outOfRange_Some: "outOfRange (Some v) = (\<not> (0 \<le> v \<and> v \<le> 15))"
  by (auto simp: outOfRange_def)

lemma foldl_digits_nonneg:
  "0 \<le> a \<Longrightarrow> list_all isDigit ds \<Longrightarrow> 0 \<le> foldl (\<lambda>a c. 10 * a + (int c - 48)) a ds"
  by (induction ds arbitrary: a) (auto simp: isDigit_def)

lemma parseInt_nonneg: "parseInt s = Some w \<Longrightarrow> 0 \<le> w"
proof -
  have "list_all isDigit (takeWhile isDigit s)"
    by (auto simp: list_all_iff dest: set_takeWhileD)
  then have "0 \<le> foldl (\<lambda>a c. 10 * a + (int c - 48)) 0 (takeWhile isDigit s)"
    by (intro foldl_digits_nonneg) simp_all
  moreover assume "parseInt s = Some w"
  ultimately show ?thesis
    by (auto simp: parseInt_def Let_def split: if_splits)
qed

lemma length_concat_filter:
  assumes "\<And>x. x \<in> set xs \<Longrightarrow> length (f x) = (if P x then 1 else 0)"
  shows "length (concat (map f xs)) = length (filter P xs)"
  using assms by (induction xs) simp_all


section \<open>Registers out of range\<close>

text \<open>
  C6: in a document with text \<open>t\<close>, Check B gives, for every whole-word token of
  register shape at an offset \<open>i\<close> (of length \<open>n\<close>) whose number is not in 0..15, an
  Error finding from \<open>positionAt i\<close> to \<open>positionAt (i + n)\<close> that names the token, and
  this finding is among the findings of the document; every finding of Check B is
  the finding of such a token, with a number above 15; there are as many findings as
  offsets with such a token; and no finding of Check B names a token whose number is
  in 0..15.
\<close>

theorem register_scan:
  "(registerTokenAt (getText doc) i n
      \<and> parseInt (drop 1 (take n (drop i (getText doc)))) = Some v
      \<and> \<not> (0 \<le> v \<and> v \<le> 15) \<longrightarrow>
    \<lparr>drange = RangeV (positionAt doc i) (positionAt doc (i + n)),
     message = str ''Invalid register: '' @ take n (drop i (getText doc)),
     severity = Error, code = None\<rparr> \<in> set (registerLoop doc 0) \<inter> set (diagnose uc doc))
   \<and> (d \<in> set (registerLoop doc 0) \<longrightarrow>
      (\<exists>j m w. registerTokenAt (getText doc) j m
         \<and> parseInt (drop 1 (take m (drop j (getText doc)))) = Some w \<and> 15 < w
         \<and> d = \<lparr>drange = RangeV (positionAt doc j) (positionAt doc (j + m)),
                 message = str ''Invalid register: '' @ take m (drop j (getText doc)),
                 severity = Error, code = None\<rparr>))
   \<and> length (registerLoop doc 0) =
      length (filter (\<lambda>j. \<exists>m w. registerTokenAt (getText doc) j m
          \<and> parseInt (drop 1 (take m (drop j (getText doc)))) = Some w \<and> 15 < w)
        [0 ..< length (getText doc)])
   \<and> (registerTokenAt (getText doc) i n
      \<and> parseInt (drop 1 (take n (drop i (getText doc)))) = Some v
      \<and> 0 \<le> v \<and> v \<le> 15 \<longrightarrow>
      \<not> (\<exists>x \<in> set (registerLoop doc 0).
           message x = str ''Invalid register: '' @ take n (drop i (getText doc))))"
proof -
  let ?t = "getText doc"
  let ?tok = "\<lambda>j m. take m (drop j ?t)"
  let ?f = "\<lambda>j m. \<lparr>drange = RangeV (positionAt doc j) (positionAt doc (j + m)),
     message = str ''Invalid register: '' @ ?tok j m, severity = Error, code = None\<rparr>"
  let ?bad = "\<lambda>j. \<exists>m w. registerTokenAt ?t j m \<and> parseInt (drop 1 (?tok j m)) = Some w \<and> 15 < w"
  have bwd: "\<exists>j m w. registerTokenAt ?t j m \<and> parseInt (drop 1 (?tok j m)) = Some w
      \<and> 15 < w \<and> x = ?f j m"
    if "x \<in> set (registerLoop doc 0)" for x
  proof -
    from that obtain j where x: "x \<in> set (registerFindingAt doc j)"
      unfolding registerLoop_set by blast
    then obtain m where r: "registerTokenAt ?t j m"
      using registerFindingAt_no_token [of doc j] by fastforce
    from x have o: "outOfRange (parseInt (drop 1 (?tok j m)))" and e: "x = ?f j m"
      unfolding registerFindingAt_token [OF r] by (simp_all split: if_splits)
    from o obtain w where "parseInt (drop 1 (?tok j m)) = Some w" and "15 < w \<or> w < 0"
      by (auto simp: outOfRange_def split: option.splits)
    moreover from this have "0 \<le> w"
      by (simp add: parseInt_nonneg)
    ultimately show ?thesis using r e by auto
  qed
  have fwd: "?f i n \<in> set (registerLoop doc 0) \<inter> set (diagnose uc doc)"
    if r: "registerTokenAt ?t i n" and p: "parseInt (drop 1 (?tok i n)) = Some v"
      and v: "\<not> (0 \<le> v \<and> v \<le> 15)"
  proof -
    from r have "matchRegisterAt ?t i = Some n" by (simp add: matchRegisterAt_iff)
    from matchRegisterAt_length [OF this] have "i < length ?t" by auto
    moreover have "?f i n \<in> set (registerFindingAt doc i)"
      unfolding registerFindingAt_token [OF r] using p v by (simp add: outOfRange_Some)
    ultimately have "?f i n \<in> set (registerLoop doc 0)"
      unfolding registerLoop_set by blast
    then show ?thesis by (simp add: diagnose_def)
  qed
  have count: "length (registerLoop doc 0) = length (filter ?bad [0 ..< length ?t])"
    unfolding registerLoop_scan
  proof (rule length_concat_filter)
    fix j
    show "length (registerFindingAt doc j) = (if ?bad j then 1 else 0)"
    proof (cases "\<exists>m. registerTokenAt ?t j m")
      case False
      then show ?thesis by (simp add: registerFindingAt_no_token)
    next
      case True
      then obtain m where r: "registerTokenAt ?t j m" ..
      have "?bad j = outOfRange (parseInt (drop 1 (?tok j m)))"
      proof
        assume "?bad j"
        then obtain m' w where "registerTokenAt ?t j m'"
          and "parseInt (drop 1 (?tok j m')) = Some w" and "15 < w" by blast
        with registerTokenAt_unique [OF r this(1)] show "outOfRange (parseInt (drop 1 (?tok j m)))"
          by (simp add: outOfRange_Some)
      next
        assume o: "outOfRange (parseInt (drop 1 (?tok j m)))"
        then obtain w where w: "parseInt (drop 1 (?tok j m)) = Some w" and "15 < w \<or> w < 0"
          by (auto simp: outOfRange_def split: option.splits)
        moreover from this have "0 \<le> w"
          by (simp add: parseInt_nonneg)
        ultimately show "?bad j" using r by auto
      qed
      then show ?thesis by (simp add: registerFindingAt_token [OF r])
    qed
  qed
  have never: "\<not> (\<exists>x \<in> set (registerLoop doc 0). message x = str ''Invalid register: '' @ ?tok i n)"
    if p: "parseInt (drop 1 (?tok i n)) = Some v" and v: "0 \<le> v \<and> v \<le> 15"
  proof
    assume "\<exists>x \<in> set (registerLoop doc 0). message x = str ''Invalid register: '' @ ?tok i n"
    then obtain x where x: "x \<in> set (registerLoop doc 0)"
      and m: "message x = str ''Invalid register: '' @ ?tok i n" by blast
    from bwd [OF x] obtain j m' w where w: "parseInt (drop 1 (?tok j m')) = Some w" "15 < w"
      and "x = ?f j m'" by blast
    with m have "?tok j m' = ?tok i n" by simp
    with w p v show False by simp
  qed
  from bwd fwd count never show ?thesis by blast
qed


text \<open>
  The text \<open>MOV r99 r1\<close>: \<open>r99\<close> at offset 4 has its finding, from offset 4 to offset
  7, and \<open>r1\<close> at offset 8 has none.
\<close>

theorem register_scan_witness:
  "registerTokenAt (str ''MOV r99 r1'') 4 3
   \<and> parseInt (drop 1 (take 3 (drop 4 (str ''MOV r99 r1'')))) = Some 99
   \<and> \<lparr>drange = RangeV (Position 0 4) (Position 0 7),
       message = str ''Invalid register: r99'', severity = Error, code = None\<rparr>
      \<in> set (registerLoop \<lparr>languageId = str ''carnival'', uri = str ''prog.cnvl'',
           getText = str ''MOV r99 r1'', positionAt = (\<lambda>offset. Position 0 offset)\<rparr> 0)
   \<and> registerTokenAt (str ''MOV r99 r1'') 8 2
   \<and> parseInt (drop 1 (take 2 (drop 8 (str ''MOV r99 r1'')))) = Some 1
   \<and> \<not> (\<exists>x \<in> set (registerLoop \<lparr>languageId = str ''carnival'', uri = str ''prog.cnvl'',
           getText = str ''MOV r99 r1'', positionAt = (\<lambda>offset. Position 0 offset)\<rparr> 0).
         message x = str ''Invalid register: r1'')"
proof -
  let ?doc = "\<lparr>languageId = str ''carnival'', uri = str ''prog.cnvl'',
           getText = str ''MOV r99 r1'', positionAt = (\<lambda>offset. Position 0 offset)\<rparr>"
  have t1: "registerTokenAt (str ''MOV r99 r1'') 4 3"
    unfolding registerTokenAt3 by (simp add: str_def isDigit_def isWord_def isLetter_def)
  have p1: "parseInt (drop 1 (take 3 (drop 4 (str ''MOV r99 r1'')))) = Some 99"
    by (simp add: str_def parseInt_def isDigit_def)
  have t2: "registerTokenAt (str ''MOV r99 r1'') 8 2"
    unfolding registerTokenAt2 by (simp add: str_def isDigit_def isWord_def isLetter_def)
  have p2: "parseInt (drop 1 (take 2 (drop 8 (str ''MOV r99 r1'')))) = Some 1"
    by (simp add: str_def parseInt_def isDigit_def)
  from register_scan [where doc = ?doc and i = 4 and n = 3 and v = 99 and uc = "\<lambda>s. s"] t1 p1
  have "\<lparr>drange = RangeV (Position 0 4) (Position 0 (4 + 3)),
       message = str ''Invalid register: '' @ take 3 (drop 4 (str ''MOV r99 r1'')),
       severity = Error, code = None\<rparr> \<in> set (registerLoop ?doc 0)"
    by simp
  then have a: "\<lparr>drange = RangeV (Position 0 4) (Position 0 7),
       message = str ''Invalid register: r99'', severity = Error, code = None\<rparr>
      \<in> set (registerLoop ?doc 0)"
    by (simp add: str_def)
  from register_scan [where doc = ?doc and i = 8 and n = 2 and v = 1 and uc = "\<lambda>s. s"] t2 p2
  have "\<not> (\<exists>x \<in> set (registerLoop ?doc 0).
         message x = str ''Invalid register: '' @ take 2 (drop 8 (str ''MOV r99 r1'')))"
    by simp
  then have c: "\<not> (\<exists>x \<in> set (registerLoop ?doc 0). message x = str ''Invalid register: r1'')"
    by (simp add: str_def)
  from t1 p1 a t2 p2 c show ?thesis by blast
qed

section \<open>The columns of the findings of the line check\<close>

lemma trim_drop_indent:
  "trim raw = take (length (trim raw)) (drop (indent raw) raw)"
proof -
  let ?s = "dropWhile isSpace raw"
  have "?s = rev (dropWhile isSpace (rev ?s)) @ rev (takeWhile isSpace (rev ?s))"
    by (metis rev_append rev_rev_ident takeWhile_dropWhile_id)
  then have "?s = trim raw @ rev (takeWhile isSpace (rev ?s))"
    by (simp add: trim_def)
  then have "take (length (trim raw)) ?s = trim raw"
    by (metis append_eq_conv_conj)
  moreover have "?s = drop (indent raw) raw"
    by (simp add: indent_def dropWhile_eq_drop)
  ultimately show ?thesis by simp
qed

text \<open>
  C4 has the finding span the trimmed line. The line \<open>  MOV 5\<close> begins with two
  blanks: its trimmed line \<open>MOV 5\<close> stands in columns 2 to 7 of the document line, and
  the one finding of the line check spans columns 0 to 5, which hold \<open>  MOV\<close>.
\<close>

theorem arity_span_indented:
  "checkLine uc lineNum (str ''  MOV 5'') =
     [\<lparr>drange = RangeV (Position lineNum 0) (Position lineNum 5),
       message = str ''Instruction MOV expects 2 argument(s), got 1'',
       severity = Error, code = None\<rparr>]
   \<and> trim (str ''  MOV 5'') = str ''MOV 5''
   \<and> indent (str ''  MOV 5'') = 2
   \<and> take 5 (drop 2 (str ''  MOV 5'')) = str ''MOV 5''
   \<and> take 5 (drop 0 (str ''  MOV 5'')) = str ''  MOV''"
proof -
  have tr: "trim (str ''  MOV 5'') = str ''MOV 5''"
    by (simp add: line_eval)
  have n: "trim (str ''  MOV 5'') \<noteq> []"
    by (simp add: tr) (simp add: str_def)
  have "checkLine uc lineNum (str ''  MOV 5'') =
      [wrongArity lineNum (str ''MOV 5'') (str ''MOV'') 2 1]"
    by (simp add: checkLine_known [OF n, where firstPart = "str ''MOV''" and args = "[str ''5'']"
          and signature = "[[Reg, Num], [Reg]]"] tr line_MOV_5 line_MOV_r99_r1 numeral_2_eq_2)
  then have "checkLine uc lineNum (str ''  MOV 5'') =
     [\<lparr>drange = RangeV (Position lineNum 0) (Position lineNum 5),
       message = str ''Instruction MOV expects 2 argument(s), got 1'',
       severity = Error, code = None\<rparr>]"
    by (simp add: wrongArity_record showNat.simps str_def)
  moreover have "indent (str ''  MOV 5'') = 2"
    "take 5 (drop 2 (str ''  MOV 5'')) = str ''MOV 5''"
    "take 5 (drop 0 (str ''  MOV 5'')) = str ''  MOV''"
    by (simp_all add: indent_def str_def isSpace_def)
  ultimately show ?thesis using tr by simp
qed

text \<open>
  C8 has the finding span the range of the first token. The line \<open>  FOO r1\<close> begins
  with two blanks: its first token \<open>FOO\<close> stands in columns 2 to 5 of the document
  line, and the one finding of the line check spans columns 0 to 3, which hold \<open>  F\<close>.
\<close>

theorem unknown_span_indented:
  "checkLine uc lineNum (str ''  FOO r1'') =
     [\<lparr>drange = RangeV (Position lineNum 0) (Position lineNum 3),
       message = str ''Invalid instruction: FOO'', severity = Error, code = None\<rparr>]
   \<and> tokens (trim (str ''  FOO r1'')) = [str ''FOO'', str ''r1'']
   \<and> indent (str ''  FOO r1'') = 2
   \<and> take 3 (drop 2 (str ''  FOO r1'')) = str ''FOO''
   \<and> take 3 (drop 0 (str ''  FOO r1'')) = str ''  F''"
proof -
  have tr: "trim (str ''  FOO r1'') = str ''FOO r1''"
    by (simp add: line_eval)
  have n: "trim (str ''  FOO r1'') \<noteq> []"
    by (simp add: tr) (simp add: str_def)
  have "\<not> startsWith (str ''FOO'') (str ''#'')" "\<not> startsWith (str ''FOO'') (str ''.'')"
    "str ''FOO'' \<notin> set metaKeys"
    by (simp_all add: startsWith_def metaKeys_def str_def)
  then have "checkLine uc lineNum (str ''  FOO r1'') =
      [invalidInstruction lineNum (str ''FOO'') (str ''FOO'')]"
    by (simp add: checkLine_unknown [OF n, where firstPart = "str ''FOO''" and args = "[str ''r1'']"]
        tr line_FOO_r1)
  then have "checkLine uc lineNum (str ''  FOO r1'') =
     [\<lparr>drange = RangeV (Position lineNum 0) (Position lineNum 3),
       message = str ''Invalid instruction: FOO'', severity = Error, code = None\<rparr>]"
    by (simp add: invalidInstruction_record str_def)
  moreover have "indent (str ''  FOO r1'') = 2"
    "take 3 (drop 2 (str ''  FOO r1'')) = str ''FOO''"
    "take 3 (drop 0 (str ''  FOO r1'')) = str ''  F''"
    by (simp_all add: indent_def str_def isSpace_def)
  ultimately show ?thesis using tr by (simp add: line_FOO_r1)
qed

end
